theory Spec2Isabelle
  imports Main "HOL-Library.AList" "HOL-Library.Multiset"
begin

section \<open>Data model\<close>

text \<open>
  The repository holds three variants of one request-capture server:
  \<^item> \<^verbatim>\<open>app.js\<close>: one SQLite database file per bin (tables \<^verbatim>\<open>metadata\<close> and
    \<^verbatim>\<open>requests\<close>);
  \<^item> \<^verbatim>\<open>app-json.js\<close>: one JSON document \<^verbatim>\<open>{name, requests}\<close> per bin;
  \<^item> the older flat-file server in \<^verbatim>\<open>unnamed/part_000\<close>: one JSON array per bin.

  Every handler is modelled as a function from the server state (and the handler's
  inputs) to the HTTP reply and the new state. Handlers run one at a time; file and
  database I/O is taken to succeed, so the only failure modelled is the missing file.
  Values that the handlers obtain from the environment are arguments: the generated
  guid, the clock reading, the response object of a streaming connection (a number
  standing for its identity), and the library functions \<^verbatim>\<open>JSON.stringify\<close>,
  \<^verbatim>\<open>parseInt\<close>, \<^verbatim>\<open>decodeURIComponent\<close> (as Express applies it to a route parameter) and
  SQLite's numeric conversion of a text parameter. Log numbers are mathematical
  integers: the 64-bit range of a rowid and the 53-bit precision of a JavaScript number
  are beyond any log. A bin name sent by a client is a JSON string. Strings are
  sequences of bytes, text outside ASCII being in UTF-8. A file is looked up under the
  guid itself: \<^verbatim>\<open>path.join\<close> is taken to give different guids different files.
\<close>

type_synonym guid = string
type_synonym res = nat

text \<open>The \<^verbatim>\<open>requestData\<close> object built by the capture route, and the same object once
  \<^verbatim>\<open>logNumber\<close> has been set on it. Headers and body are kept as their JSON text; the
  field \<^verbatim>\<open>method\<close> is called \<open>http_method\<close>.\<close>

record request_data =
  url :: string
  http_method :: string
  headers :: string
  body :: string
  timestamp :: string

record log_entry = request_data +
  logNumber :: int

definition with_logNumber :: "request_data \<Rightarrow> int \<Rightarrow> log_entry" where
  "with_logNumber requestData n =
     \<lparr>url = url requestData, http_method = http_method requestData, headers = headers requestData,
      body = body requestData, timestamp = timestamp requestData, logNumber = n\<rparr>"

text \<open>The parts of an Express request that the capture route reads.\<close>

record request =
  originalUrl :: string
  req_method :: string
  req_headers :: string
  req_body :: string

text \<open>What a handler sends: \<^verbatim>\<open>res.sendStatus(n)\<close>, \<^verbatim>\<open>res.status(n).send(text)\<close> or
  \<^verbatim>\<open>res.json(value)\<close>.\<close>

datatype 'a response = SendStatus nat | StatusSend nat string | Json 'a

fun status_of :: "'a response \<Rightarrow> nat" where
  "status_of (SendStatus n) = n"
| "status_of (StatusSend n _) = n"
| "status_of (Json _) = 200"

text \<open>The object returned by \<^verbatim>\<open>logRequest\<close>: \<^verbatim>\<open>{status, error}\<close>.\<close>

record result =
  status :: nat
  error :: "string option"

text \<open>
  The server state. \<open>files\<close> is the data directory, one file per bin, keyed by guid (the
  file name without its extension) in directory order. \<open>sseClients\<close> is the global object
  of the same name: guid to array of response objects. \<open>streams\<close> records every chunk
  written to a response object. \<open>intervals\<close> holds the response objects whose keep-alive
  timer is armed. \<open>live\<close> holds the response objects of streaming connections that are
  open: the streaming handler returns without ending its response, so a connection is
  open from the request until the client closes it.
\<close>

record 'f server =
  files :: "(guid \<times> 'f) list"
  sseClients :: "(guid \<times> res list) list"
  streams :: "res \<Rightarrow> string list"
  intervals :: "res list"
  live :: "res list"

definition init_server :: "'f server" where
  "init_server = \<lparr>files = [], sseClients = [], streams = (\<lambda>_. []), intervals = [], live = []\<rparr>"

subsection \<open>Server-sent events\<close>

definition newline :: char where
  "newline = CHR 0x0A"

text \<open>\<^verbatim>\<open>`data: ${JSON.stringify(log)}\n\n`\<close> and \<^verbatim>\<open>': keep-alive\n\n'\<close>.\<close>

definition data_chunk :: "(log_entry \<Rightarrow> string) \<Rightarrow> log_entry \<Rightarrow> string" where
  "data_chunk stringify log = ''data: '' @ stringify log @ [newline, newline]"

definition keep_alive_chunk :: string where
  "keep_alive_chunk = '': keep-alive'' @ [newline, newline]"

text \<open>In the event-stream format a block whose line starts with a colon is a comment;
  a block whose line starts with \<^verbatim>\<open>data:\<close> is a data event.\<close>

definition is_comment :: "string \<Rightarrow> bool" where
  "is_comment chunk = (take 1 chunk = '':'')"

definition is_data_event :: "string \<Rightarrow> bool" where
  "is_data_event chunk = (take 5 chunk = ''data:'')"

definition res_write :: "res \<Rightarrow> string \<Rightarrow> (res \<Rightarrow> string list) \<Rightarrow> (res \<Rightarrow> string list)" where
  "res_write client chunk st = st(client := st client @ [chunk])"

text \<open>\<^verbatim>\<open>if (sseClients[guid]) sseClients[guid].forEach(client => client.write(...))\<close>\<close>

definition pushUpdateToClients ::
  "(log_entry \<Rightarrow> string) \<Rightarrow> guid \<Rightarrow> log_entry \<Rightarrow> 'f server \<Rightarrow> 'f server" where
  "pushUpdateToClients stringify g log s =
     (case map_of (sseClients s) g of
        None \<Rightarrow> s
      | Some clients \<Rightarrow>
          s\<lparr>streams := fold (\<lambda>client. res_write client (data_chunk stringify log)) clients (streams s)\<rparr>)"

text \<open>\<^verbatim>\<open>if (!sseClients[guid]) sseClients[guid] = []; sseClients[guid].push(res)\<close>\<close>

definition register :: "guid \<Rightarrow> res \<Rightarrow> (guid \<times> res list) list \<Rightarrow> (guid \<times> res list) list" where
  "register g r reg =
     (case map_of reg g of
        None \<Rightarrow> AList.update g [r] reg
      | Some clients \<Rightarrow> AList.update g (clients @ [r]) reg)"

section \<open>The SQLite server (app.js)\<close>

text \<open>
  A database file: the rows of \<^verbatim>\<open>metadata(name)\<close>, the rows of \<^verbatim>\<open>requests\<close> in rowid
  order, and the counter that SQLite keeps in \<^verbatim>\<open>sqlite_sequence\<close> for the
  \<^verbatim>\<open>INTEGER PRIMARY KEY AUTOINCREMENT\<close> column \<^verbatim>\<open>logNumber\<close> (the largest rowid the table
  has ever held; 0 before the first insert).
\<close>

record db_file =
  metadata :: "string list"
  requests_tbl :: "log_entry list"
  sqlite_sequence :: int

definition empty_db :: db_file where
  "empty_db = \<lparr>metadata = [], requests_tbl = [], sqlite_sequence = 0\<rparr>"

text \<open>Opening the database creates the file when it is missing; both tables are created
  \<^verbatim>\<open>IF NOT EXISTS\<close>.\<close>

definition initDb :: "guid \<Rightarrow> db_file server \<Rightarrow> db_file server" where
  "initDb g s =
     (case map_of (files s) g of
        Some _ \<Rightarrow> s
      | None \<Rightarrow> s\<lparr>files := AList.update g empty_db (files s)\<rparr>)"

text \<open>An insert that names no \<^verbatim>\<open>logNumber\<close>: AUTOINCREMENT picks one more than the larger
  of the counter and the largest rowid present, and stores it in the counter.\<close>

definition max_rowid :: "log_entry list \<Rightarrow> int" where
  "max_rowid rows = fold max (map logNumber rows) 0"

definition insert_request :: "request_data \<Rightarrow> db_file \<Rightarrow> int \<times> db_file" where
  "insert_request requestData d =
     (let lastID = max (sqlite_sequence d) (max_rowid (requests_tbl d)) + 1
      in (lastID,
          d\<lparr>requests_tbl := requests_tbl d @ [with_logNumber requestData lastID],
            sqlite_sequence := lastID\<rparr>))"

definition logRequest ::
  "(log_entry \<Rightarrow> string) \<Rightarrow> guid \<Rightarrow> request_data \<Rightarrow> db_file server \<Rightarrow> result \<times> db_file server" where
  "logRequest stringify g requestData s =
     (case map_of (files s) g of
        None \<Rightarrow> (\<lparr>status = 404, error = Some ''Not found''\<rparr>, s)
      | Some _ \<Rightarrow>
          (let s1 = initDb g s in
           case map_of (files s1) g of
             None \<Rightarrow> (\<lparr>status = 404, error = Some ''Not found''\<rparr>, s1)
           | Some d \<Rightarrow>
               (let (lastID, d') = insert_request requestData d;
                    s2 = s1\<lparr>files := AList.update g d' (files s1)\<rparr>
                in (\<lparr>status = 200, error = None\<rparr>,
                    pushUpdateToClients stringify g (with_logNumber requestData lastID) s2))))"

text \<open>The route \<^verbatim>\<open>app.all('/:guid/:subPath*?')\<close>. Express matches the path of the URL (the
  part before any \<^verbatim>\<open>?\<close> or \<^verbatim>\<open>#\<close>); \<open>first_segment\<close> is its first segment as it is
  written in the URL. The \<^verbatim>\<open>guid\<close> parameter that the handler receives is that segment
  decoded with \<^verbatim>\<open>decodeURIComponent\<close> (\<open>decode\<close>; \<open>None\<close> when it throws, and then Express
  answers 400 and the handler is not called). The handler stores \<^verbatim>\<open>req.originalUrl\<close>.\<close>

definition first_segment :: "string \<Rightarrow> string option" where
  "first_segment u =
     (case u of
        [] \<Rightarrow> None
      | c # rest \<Rightarrow>
          (let seg = takeWhile (\<lambda>x. x \<noteq> CHR ''/'' \<and> x \<noteq> CHR ''?'' \<and> x \<noteq> CHR ''#'') rest
           in if c = CHR ''/'' \<and> seg \<noteq> [] then Some seg else None))"

definition capture_route :: "(string \<Rightarrow> string option) \<Rightarrow> string \<Rightarrow> guid option" where
  "capture_route decode u = (case first_segment u of None \<Rightarrow> None | Some seg \<Rightarrow> decode seg)"

definition requestData_of :: "request \<Rightarrow> string \<Rightarrow> request_data" where
  "requestData_of req now =
     \<lparr>url = originalUrl req, http_method = req_method req, headers = req_headers req,
      body = req_body req, timestamp = now\<rparr>"

definition reply_of :: "result \<Rightarrow> unit response" where
  "reply_of r = (case error r of Some e \<Rightarrow> StatusSend (status r) e | None \<Rightarrow> SendStatus (status r))"

definition capture ::
  "(log_entry \<Rightarrow> string) \<Rightarrow> guid \<Rightarrow> request \<Rightarrow> string \<Rightarrow> db_file server \<Rightarrow> unit response \<times> db_file server" where
  "capture stringify g req now s =
     (let (r, s') = logRequest stringify g (requestData_of req now) s in (reply_of r, s'))"

text \<open>\<^verbatim>\<open>POST /create-url\<close>: \<open>g\<close> is the generated guid, \<open>name_in\<close> the \<^verbatim>\<open>name\<close> of the request
  body when it has one (a JSON string).\<close>

definition create_url :: "guid \<Rightarrow> string option \<Rightarrow> db_file server \<Rightarrow> (guid \<times> string) response \<times> db_file server" where
  "create_url g name_in s =
     (let name = (case name_in of None \<Rightarrow> ''Untitled'' | Some n \<Rightarrow> n);
          s1 = initDb g s
      in case map_of (files s1) g of
           None \<Rightarrow> (Json (g, name), s1)
         | Some d \<Rightarrow>
             (Json (g, name),
              s1\<lparr>files := AList.update g (d\<lparr>metadata := metadata d @ [name]\<rparr>) (files s1)\<rparr>))"

text \<open>\<^verbatim>\<open>DELETE /delete-url/:guid\<close>\<close>

definition delete_url :: "guid \<Rightarrow> 'f server \<Rightarrow> unit response \<times> 'f server" where
  "delete_url g s =
     (case map_of (files s) g of
        None \<Rightarrow> (SendStatus 404, s)
      | Some _ \<Rightarrow>
          (SendStatus 200,
           s\<lparr>files := AList.delete g (files s), sseClients := AList.delete g (sseClients s)\<rparr>))"

text \<open>\<^verbatim>\<open>GET /get-urls\<close>: one summary per file (the file times and the first and last
  request times are left out).\<close>

definition first_name :: "db_file \<Rightarrow> string" where
  "first_name d = (case metadata d of [] \<Rightarrow> ''Untitled'' | n # _ \<Rightarrow> n)"

definition get_urls :: "db_file server \<Rightarrow> (guid \<times> string \<times> nat) list" where
  "get_urls s = map (\<lambda>(g, d). (g, first_name d, length (requests_tbl d))) (files s)"

text \<open>\<^verbatim>\<open>GET /logs/:guid\<close>, with \<^verbatim>\<open>SELECT * FROM requests ORDER BY logNumber DESC\<close>.\<close>

definition order_by_logNumber_desc :: "log_entry list \<Rightarrow> log_entry list" where
  "order_by_logNumber_desc rows = rev (sort_key logNumber rows)"

definition logs_get :: "guid \<Rightarrow> db_file server \<Rightarrow> (string \<times> log_entry list) response" where
  "logs_get g s =
     (case map_of (files s) g of
        None \<Rightarrow> SendStatus 404
      | Some d \<Rightarrow> Json (first_name d, order_by_logNumber_desc (requests_tbl d)))"

text \<open>\<^verbatim>\<open>DELETE /logs/:guid/:logNumber\<close>, with \<^verbatim>\<open>DELETE FROM requests WHERE logNumber = ?\<close>.
  The parameter is bound as the text of the path segment; \<open>numeric\<close> is SQLite's
  conversion of that text for the comparison with the integer column (\<open>None\<close> when the
  text is no number, and then no row is equal to it).\<close>

definition delete_where_logNumber :: "int option \<Rightarrow> db_file \<Rightarrow> db_file" where
  "delete_where_logNumber v d =
     d\<lparr>requests_tbl := filter (\<lambda>row. Some (logNumber row) \<noteq> v) (requests_tbl d)\<rparr>"

definition delete_log ::
  "(string \<Rightarrow> int option) \<Rightarrow> guid \<Rightarrow> string \<Rightarrow> db_file server \<Rightarrow> unit response \<times> db_file server" where
  "delete_log numeric g seg s =
     (case map_of (files s) g of
        None \<Rightarrow> (SendStatus 404, s)
      | Some d \<Rightarrow>
          (SendStatus 200,
           s\<lparr>files := AList.update g (delete_where_logNumber (numeric seg) d) (files s)\<rparr>))"

text \<open>\<^verbatim>\<open>DELETE /logs/:guid\<close>: all rows when the body has no \<^verbatim>\<open>logs\<close>, else the rows whose
  number is in the list.\<close>

definition delete_logs :: "guid \<Rightarrow> int list option \<Rightarrow> db_file server \<Rightarrow> unit response \<times> db_file server" where
  "delete_logs g logs s =
     (case map_of (files s) g of
        None \<Rightarrow> (SendStatus 404, s)
      | Some d \<Rightarrow>
          (SendStatus 200,
           s\<lparr>files := AList.update g
                (case logs of
                   None \<Rightarrow> d\<lparr>requests_tbl := []\<rparr>
                 | Some ns \<Rightarrow> d\<lparr>requests_tbl := filter (\<lambda>row. logNumber row \<notin> set ns) (requests_tbl d)\<rparr>)
                (files s)\<rparr>))"

text \<open>\<^verbatim>\<open>POST /rename-url/:guid\<close>, with \<^verbatim>\<open>UPDATE metadata SET name = ?\<close>.\<close>

definition rename_url :: "guid \<Rightarrow> string \<Rightarrow> db_file server \<Rightarrow> unit response \<times> db_file server" where
  "rename_url g name s =
     (case map_of (files s) g of
        None \<Rightarrow> (SendStatus 404, s)
      | Some d \<Rightarrow>
          (SendStatus 200,
           s\<lparr>files := AList.update g (d\<lparr>metadata := map (\<lambda>_. name) (metadata d)\<rparr>) (files s)\<rparr>))"

text \<open>\<^verbatim>\<open>GET /logs-stream/:guid\<close>: the response object is registered and its keep-alive timer
  armed; each tick of the timer writes the keep-alive comment.\<close>

definition logs_stream :: "guid \<Rightarrow> res \<Rightarrow> 'f server \<Rightarrow> 'f server" where
  "logs_stream g r s =
     s\<lparr>sseClients := register g r (sseClients s),
       intervals := intervals s @ [r],
       live := live s @ [r]\<rparr>"

definition keepAlive :: "res \<Rightarrow> 'f server \<Rightarrow> 'f server" where
  "keepAlive r s =
     (if r \<in> set (intervals s) then s\<lparr>streams := res_write r keep_alive_chunk (streams s)\<rparr> else s)"

text \<open>The \<^verbatim>\<open>close\<close> listener of a streaming request: the timer is cleared, then the
  array of the guid is filtered. When the bin has been deleted in between,
  \<^verbatim>\<open>sseClients[guid]\<close> is undefined and the listener throws a TypeError.\<close>

datatype js_error = TypeError

definition on_close :: "guid \<Rightarrow> res \<Rightarrow> 'f server \<Rightarrow> js_error option \<times> 'f server" where
  "on_close g r s =
     (let s1 = s\<lparr>intervals := removeAll r (intervals s), live := removeAll r (live s)\<rparr>
      in case map_of (sseClients s1) g of
           None \<Rightarrow> (Some TypeError, s1)
         | Some clients \<Rightarrow>
             (None, s1\<lparr>sseClients := AList.update g (filter (\<lambda>client. client \<noteq> r) clients) (sseClients s1)\<rparr>))"

text \<open>The calls that change the state of the SQLite server, and a sequence of them. A
  request reaches the capture handler with the guid that the route extracts from its
  URL; a request that the route does not match changes nothing.\<close>

datatype event =
    CreateUrl guid "string option"
  | DeleteUrl guid
  | DeleteLog guid string
  | DeleteLogs guid "int list option"
  | RenameUrl guid string
  | LogsStream guid res
  | KeepAlive res
  | Close guid res
  | Capture request string

fun step ::
  "(log_entry \<Rightarrow> string) \<Rightarrow> (string \<Rightarrow> int option) \<Rightarrow> (string \<Rightarrow> string option) \<Rightarrow> event \<Rightarrow> db_file server \<Rightarrow> db_file server" where
  "step stringify numeric decode (CreateUrl g name_in) s = snd (create_url g name_in s)"
| "step stringify numeric decode (DeleteUrl g) s = snd (delete_url g s)"
| "step stringify numeric decode (DeleteLog g seg) s = snd (delete_log numeric g seg s)"
| "step stringify numeric decode (DeleteLogs g logs) s = snd (delete_logs g logs s)"
| "step stringify numeric decode (RenameUrl g name) s = snd (rename_url g name s)"
| "step stringify numeric decode (LogsStream g r) s = logs_stream g r s"
| "step stringify numeric decode (KeepAlive r) s = keepAlive r s"
| "step stringify numeric decode (Close g r) s = snd (on_close g r s)"
| "step stringify numeric decode (Capture req now) s =
     (case capture_route decode (originalUrl req) of
        None \<Rightarrow> s
      | Some g \<Rightarrow> snd (capture stringify g req now s))"

definition run ::
  "(log_entry \<Rightarrow> string) \<Rightarrow> (string \<Rightarrow> int option) \<Rightarrow> (string \<Rightarrow> string option) \<Rightarrow> event list \<Rightarrow>
   db_file server \<Rightarrow> db_file server" where
  "run stringify numeric decode evs s = fold (step stringify numeric decode) evs s"

section \<open>The JSON server (app-json.js)\<close>

text \<open>A bin file holds the document \<^verbatim>\<open>{name, requests}\<close>. The name is \<^verbatim>\<open>false\<close>, a string,
  or missing; \<open>requests\<close> is \<open>None\<close> when the document's \<^verbatim>\<open>requests\<close> is not an array.\<close>

datatype name_value = NameAbsent | NameFalse | NameString string

record bin_doc =
  name :: name_value
  requests :: "log_entry list option"

definition logRequest_json ::
  "(log_entry \<Rightarrow> string) \<Rightarrow> guid \<Rightarrow> request_data \<Rightarrow> bin_doc server \<Rightarrow> result \<times> bin_doc server" where
  "logRequest_json stringify g requestData s =
     (case map_of (files s) g of
        None \<Rightarrow> (\<lparr>status = 404, error = Some ''File not found''\<rparr>, s)
      | Some data \<Rightarrow>
          (let reqs = (case requests data of None \<Rightarrow> [] | Some rs \<Rightarrow> rs);
               log = with_logNumber requestData (int (length reqs) + 1);
               s1 = s\<lparr>files := AList.update g (data\<lparr>requests := Some (reqs @ [log])\<rparr>) (files s)\<rparr>
           in (\<lparr>status = 200, error = None\<rparr>, pushUpdateToClients stringify g log s1)))"

definition capture_json ::
  "(log_entry \<Rightarrow> string) \<Rightarrow> guid \<Rightarrow> request \<Rightarrow> string \<Rightarrow> bin_doc server \<Rightarrow> unit response \<times> bin_doc server" where
  "capture_json stringify g req now s =
     (let (r, s') = logRequest_json stringify g (requestData_of req now) s in (reply_of r, s'))"

text \<open>\<^verbatim>\<open>POST /create-url\<close>: the handler does not read the request body; the name is
  \<^verbatim>\<open>false\<close>. \<open>name_in\<close> is the body's \<^verbatim>\<open>name\<close>, present only to show that it is unused.\<close>

definition create_url_json ::
  "guid \<Rightarrow> string option \<Rightarrow> bin_doc server \<Rightarrow> (guid \<times> name_value) response \<times> bin_doc server" where
  "create_url_json g name_in s =
     (Json (g, NameFalse),
      s\<lparr>files := AList.update g \<lparr>name = NameFalse, requests = Some []\<rparr> (files s)\<rparr>)"

text \<open>\<^verbatim>\<open>DELETE /delete-url/:guid\<close> is \<open>delete_url\<close> above: \<^verbatim>\<open>fs.unlink\<close> fails on a missing
  file, and the handler answers 404.\<close>

text \<open>\<^verbatim>\<open>GET /get-urls\<close> (file times and request times left out).\<close>

definition get_urls_json :: "bin_doc server \<Rightarrow> (guid \<times> string \<times> nat) list" where
  "get_urls_json s =
     map (\<lambda>(g, data).
            (g,
             (case name data of NameString n \<Rightarrow> (if n = [] then ''Untitled'' else n) | _ \<Rightarrow> ''Untitled''),
             (case requests data of None \<Rightarrow> 0 | Some rs \<Rightarrow> length rs)))
         (files s)"

text \<open>\<^verbatim>\<open>GET /logs/:guid\<close> returns the document as it is stored.\<close>

definition logs_get_json :: "guid \<Rightarrow> bin_doc server \<Rightarrow> bin_doc response" where
  "logs_get_json g s =
     (case map_of (files s) g of
        None \<Rightarrow> StatusSend 404 ''Logs not found''
      | Some data \<Rightarrow> Json data)"

text \<open>\<^verbatim>\<open>DELETE /logs/:guid/:logNumber\<close>: \<open>parseInt\<close> is the JavaScript function of that name
  (\<open>None\<close> for NaN, which is different from every number). Any exception, the missing
  file included, is answered with 500.\<close>

definition delete_log_json ::
  "(string \<Rightarrow> int option) \<Rightarrow> guid \<Rightarrow> string \<Rightarrow> bin_doc server \<Rightarrow> unit response \<times> bin_doc server" where
  "delete_log_json parseInt g seg s =
     (case map_of (files s) g of
        None \<Rightarrow> (StatusSend 500 ''Error deleting log'', s)
      | Some data \<Rightarrow>
          (case requests data of
             None \<Rightarrow> (StatusSend 500 ''Error deleting log'', s)
           | Some rs \<Rightarrow>
               (SendStatus 200,
                s\<lparr>files := AList.update g
                     (data\<lparr>requests := Some (filter (\<lambda>log. Some (logNumber log) \<noteq> parseInt seg) rs)\<rparr>)
                     (files s)\<rparr>)))"

text \<open>\<^verbatim>\<open>POST /rename-url/:guid\<close>: \<open>name_in\<close> is the body's \<^verbatim>\<open>name\<close>; an undefined name is
  dropped when the document is written.\<close>

definition rename_url_json :: "guid \<Rightarrow> string option \<Rightarrow> bin_doc server \<Rightarrow> unit response \<times> bin_doc server" where
  "rename_url_json g name_in s =
     (case map_of (files s) g of
        None \<Rightarrow> (StatusSend 500 ''Error renaming URL'', s)
      | Some data \<Rightarrow>
          (SendStatus 200,
           s\<lparr>files := AList.update g
                (data\<lparr>name := (case name_in of None \<Rightarrow> NameAbsent | Some n \<Rightarrow> NameString n)\<rparr>)
                (files s)\<rparr>))"

text \<open>\<^verbatim>\<open>GET /logs-stream/:guid\<close> has no keep-alive timer here.\<close>

definition logs_stream_json :: "guid \<Rightarrow> res \<Rightarrow> bin_doc server \<Rightarrow> bin_doc server" where
  "logs_stream_json g r s = s\<lparr>sseClients := register g r (sseClients s), live := live s @ [r]\<rparr>"

definition on_close_json :: "guid \<Rightarrow> res \<Rightarrow> bin_doc server \<Rightarrow> js_error option \<times> bin_doc server" where
  "on_close_json g r s =
     (let s1 = s\<lparr>live := removeAll r (live s)\<rparr>
      in case map_of (sseClients s1) g of
           None \<Rightarrow> (Some TypeError, s1)
         | Some clients \<Rightarrow>
             (None, s1\<lparr>sseClients := AList.update g (filter (\<lambda>client. client \<noteq> r) clients) (sseClients s1)\<rparr>))"

datatype event_json =
    CreateUrlJ guid "string option"
  | DeleteUrlJ guid
  | DeleteLogJ guid string
  | RenameUrlJ guid "string option"
  | LogsStreamJ guid res
  | CloseJ guid res
  | CaptureJ request string

fun step_json ::
  "(log_entry \<Rightarrow> string) \<Rightarrow> (string \<Rightarrow> int option) \<Rightarrow> (string \<Rightarrow> string option) \<Rightarrow> event_json \<Rightarrow> bin_doc server \<Rightarrow> bin_doc server" where
  "step_json stringify parseInt decode (CreateUrlJ g name_in) s = snd (create_url_json g name_in s)"
| "step_json stringify parseInt decode (DeleteUrlJ g) s = snd (delete_url g s)"
| "step_json stringify parseInt decode (DeleteLogJ g seg) s = snd (delete_log_json parseInt g seg s)"
| "step_json stringify parseInt decode (RenameUrlJ g name_in) s = snd (rename_url_json g name_in s)"
| "step_json stringify parseInt decode (LogsStreamJ g r) s = logs_stream_json g r s"
| "step_json stringify parseInt decode (CloseJ g r) s = snd (on_close_json g r s)"
| "step_json stringify parseInt decode (CaptureJ req now) s =
     (case capture_route decode (originalUrl req) of
        None \<Rightarrow> s
      | Some g \<Rightarrow> snd (capture_json stringify g req now s))"

definition run_json ::
  "(log_entry \<Rightarrow> string) \<Rightarrow> (string \<Rightarrow> int option) \<Rightarrow> (string \<Rightarrow> string option) \<Rightarrow> event_json list \<Rightarrow>
   bin_doc server \<Rightarrow> bin_doc server" where
  "run_json stringify parseInt decode evs s = fold (step_json stringify parseInt decode) evs s"

section \<open>The older flat-file server (unnamed/part\_000)\<close>

text \<open>A bin file holds the array of entries. \<^verbatim>\<open>logRequest\<close> starts from an empty array when
  the file cannot be read, writes the file, and returns nothing; the route answers 200.\<close>

definition logRequest_legacy ::
  "(log_entry \<Rightarrow> string) \<Rightarrow> guid \<Rightarrow> request_data \<Rightarrow> (log_entry list) server \<Rightarrow> (log_entry list) server" where
  "logRequest_legacy stringify g requestData s =
     (let (logData, nextLogNumber) =
            (case map_of (files s) g of
               None \<Rightarrow> ([], 1)
             | Some stored \<Rightarrow> (stored, int (length stored) + 1));
          log = with_logNumber requestData nextLogNumber;
          s1 = s\<lparr>files := AList.update g (logData @ [log]) (files s)\<rparr>
      in pushUpdateToClients stringify g log s1)"

definition capture_legacy ::
  "(log_entry \<Rightarrow> string) \<Rightarrow> guid \<Rightarrow> request \<Rightarrow> string \<Rightarrow> (log_entry list) server \<Rightarrow> unit response \<times> (log_entry list) server" where
  "capture_legacy stringify g req now s =
     (SendStatus 200, logRequest_legacy stringify g (requestData_of req now) s)"

section \<open>The library functions\<close>

text \<open>
  The handlers take \<^verbatim>\<open>JSON.stringify\<close>, \<^verbatim>\<open>parseInt\<close>, \<^verbatim>\<open>decodeURIComponent\<close> and SQLite's
  conversion of a text to a number as arguments, and the general statements below hold
  for any functions in their place. The examples instantiate them with the following
  definitions, written after the ECMAScript specification and SQLite's \<^verbatim>\<open>sqlite3AtoF\<close>.
  They compute with exact integers: a numeral too long for a JavaScript number or an
  SQLite double to hold exactly is outside what they describe.
\<close>

definition byte :: "char \<Rightarrow> nat" where
  "byte c = of_char c"

definition is_digit :: "char \<Rightarrow> bool" where
  "is_digit c = (48 \<le> byte c \<and> byte c \<le> 57)"

definition hex_value :: "char \<Rightarrow> nat option" where
  "hex_value c =
     (let b = byte c in
      if 48 \<le> b \<and> b \<le> 57 then Some (b - 48)
      else if 65 \<le> b \<and> b \<le> 70 then Some (b - 55)
      else if 97 \<le> b \<and> b \<le> 102 then Some (b - 87)
      else None)"

definition digits_value :: "nat \<Rightarrow> string \<Rightarrow> int" where
  "digits_value radix ds =
     int (fold (\<lambda>c n. radix * n + (case hex_value c of None \<Rightarrow> 0 | Some v \<Rightarrow> v)) ds 0)"

text \<open>\<^verbatim>\<open>parseInt(string)\<close> with no radix: leading white space and line terminators are
  skipped (\<open>js_white_space_length\<close> is the length in bytes of one at the head of the
  string, 0 when there is none), then a sign, then \<^verbatim>\<open>0x\<close> or \<^verbatim>\<open>0X\<close> selects radix 16;
  the value is that of the longest run of digits that follows, whatever comes after
  it, and NaN (\<open>None\<close>) when there is no digit.\<close>

definition js_white_space_length :: "string \<Rightarrow> nat" where
  "js_white_space_length s =
     (case map byte (take 3 s) of
        [] \<Rightarrow> 0
      | b1 # bs \<Rightarrow>
          if (9 \<le> b1 \<and> b1 \<le> 13) \<or> b1 = 32 then 1
          else (case bs of
                  [] \<Rightarrow> 0
                | b2 # bs' \<Rightarrow>
                    if b1 = 194 \<and> b2 = 160 then 2
                    else (case bs' of
                            [] \<Rightarrow> 0
                          | b3 # _ \<Rightarrow>
                              if (b1 = 225 \<and> b2 = 154 \<and> b3 = 128)
                                 \<or> (b1 = 226 \<and> b2 = 128
                                     \<and> ((128 \<le> b3 \<and> b3 \<le> 138) \<or> b3 = 168 \<or> b3 = 169 \<or> b3 = 175))
                                 \<or> (b1 = 226 \<and> b2 = 129 \<and> b3 = 159)
                                 \<or> (b1 = 227 \<and> b2 = 128 \<and> b3 = 128)
                                 \<or> (b1 = 239 \<and> b2 = 187 \<and> b3 = 191)
                              then 3 else 0)))"

function js_trim_start :: "string \<Rightarrow> string" where
  "js_trim_start s =
     (if js_white_space_length s = 0 then s else js_trim_start (drop (js_white_space_length s) s))"
  by pat_completeness auto
termination
proof (relation "measure length")
  show "wf (measure length)" by simp
next
  fix s :: string
  assume "js_white_space_length s \<noteq> 0"
  then have "s \<noteq> []" by (auto simp: js_white_space_length_def)
  with \<open>js_white_space_length s \<noteq> 0\<close>
  show "(drop (js_white_space_length s) s, s) \<in> measure length" by simp
qed

declare js_trim_start.simps [simp del]

definition js_parseInt :: "string \<Rightarrow> int option" where
  "js_parseInt inputString =
     (let s0 = js_trim_start inputString;
          sign = (if take 1 s0 = ''-'' then - 1 else 1);
          s1 = (if take 1 s0 = ''-'' \<or> take 1 s0 = ''+'' then drop 1 s0 else s0);
          hex = (take 2 s1 = ''0x'' \<or> take 2 s1 = ''0X'');
          s2 = (if hex then drop 2 s1 else s1);
          z = (if hex then takeWhile (\<lambda>c. hex_value c \<noteq> None) s2 else takeWhile is_digit s2)
      in if z = [] then None else Some (sign * digits_value (if hex then 16 else 10) z))"

text \<open>The number that SQLite reads from a text when it compares the text with the
  integer column: the whole text must be a numeral (spaces around it, a sign, digits,
  a fraction, an exponent), and the comparison can succeed only when its value is an
  integer. \<open>None\<close> when the text is no numeral or its value is no integer: no row is
  equal to it.\<close>

definition sqlite_space :: "char \<Rightarrow> bool" where
  "sqlite_space c = ((9 \<le> byte c \<and> byte c \<le> 13) \<or> byte c = 32)"

definition sqlite_numeric :: "string \<Rightarrow> int option" where
  "sqlite_numeric z =
     (let z0 = dropWhile sqlite_space z;
          sign = (if take 1 z0 = ''-'' then - 1 else 1);
          z1 = (if take 1 z0 = ''-'' \<or> take 1 z0 = ''+'' then drop 1 z0 else z0);
          ip = takeWhile is_digit z1;
          z2 = dropWhile is_digit z1;
          point = (take 1 z2 = ''.'');
          fp = (if point then takeWhile is_digit (drop 1 z2) else []);
          z3 = (if point then dropWhile is_digit (drop 1 z2) else z2);
          has_e = (take 1 z3 = ''e'' \<or> take 1 z3 = ''E'');
          z4 = (if has_e then drop 1 z3 else z3);
          esign = (if has_e \<and> take 1 z4 = ''-'' then - 1 else 1);
          z5 = (if has_e \<and> (take 1 z4 = ''-'' \<or> take 1 z4 = ''+'') then drop 1 z4 else z4);
          ep = (if has_e then takeWhile is_digit z5 else []);
          z6 = (if has_e then dropWhile is_digit z5 else z5);
          rest = dropWhile sqlite_space z6;
          m = digits_value 10 (ip @ fp);
          e = esign * digits_value 10 ep - int (length fp)
      in if rest \<noteq> [] \<or> ip @ fp = [] \<or> (has_e \<and> ep = []) then None
         else if 0 \<le> e then Some (sign * m * 10 ^ nat e)
         else if m mod 10 ^ nat (- e) = 0 then Some (sign * (m div 10 ^ nat (- e)))
         else None)"

text \<open>\<^verbatim>\<open>decodeURIComponent\<close>: every \<^verbatim>\<open>%XX\<close> becomes the byte \<^verbatim>\<open>XX\<close>; it throws (\<open>None\<close>) on a
  \<^verbatim>\<open>%\<close> that two hexadecimal digits do not follow and on escaped bytes above 127 that
  are not the UTF-8 encoding of a code point. \<open>utf8_decode need lo hi\<close> expects \<open>need\<close>
  more escaped continuation bytes, the next one between \<open>lo\<close> and \<open>hi\<close>.\<close>

datatype uri_token = Raw char | Escaped nat

fun uri_tokens :: "string \<Rightarrow> uri_token list option" where
  "uri_tokens [] = Some []"
| "uri_tokens (c # cs) =
     (if c = CHR ''%'' then
        (case cs of
           h1 # h2 # rest \<Rightarrow>
             (case (hex_value h1, hex_value h2) of
                (Some a, Some b) \<Rightarrow> map_option ((#) (Escaped (16 * a + b))) (uri_tokens rest)
              | _ \<Rightarrow> None)
         | _ \<Rightarrow> None)
      else map_option ((#) (Raw c)) (uri_tokens cs))"

fun utf8_decode :: "nat \<Rightarrow> nat \<Rightarrow> nat \<Rightarrow> uri_token list \<Rightarrow> string option" where
  "utf8_decode need lo hi [] = (if need = 0 then Some [] else None)"
| "utf8_decode need lo hi (Raw c # ts) =
     (if need = 0 then map_option ((#) c) (utf8_decode 0 128 191 ts) else None)"
| "utf8_decode need lo hi (Escaped b # ts) =
     (if need = 0 then
        (if b < 128 then map_option ((#) (char_of b)) (utf8_decode 0 128 191 ts)
         else if 194 \<le> b \<and> b \<le> 223 then map_option ((#) (char_of b)) (utf8_decode 1 128 191 ts)
         else if b = 224 then map_option ((#) (char_of b)) (utf8_decode 2 160 191 ts)
         else if b = 237 then map_option ((#) (char_of b)) (utf8_decode 2 128 159 ts)
         else if 225 \<le> b \<and> b \<le> 239 then map_option ((#) (char_of b)) (utf8_decode 2 128 191 ts)
         else if b = 240 then map_option ((#) (char_of b)) (utf8_decode 3 144 191 ts)
         else if 241 \<le> b \<and> b \<le> 243 then map_option ((#) (char_of b)) (utf8_decode 3 128 191 ts)
         else if b = 244 then map_option ((#) (char_of b)) (utf8_decode 3 128 143 ts)
         else None)
      else if lo \<le> b \<and> b \<le> hi then map_option ((#) (char_of b)) (utf8_decode (need - 1) 128 191 ts)
      else None)"

definition js_decodeURIComponent :: "string \<Rightarrow> string option" where
  "js_decodeURIComponent s = (case uri_tokens s of None \<Rightarrow> None | Some ts \<Rightarrow> utf8_decode 0 128 191 ts)"

text \<open>\<^verbatim>\<open>JSON.stringify\<close> of the object that \<^verbatim>\<open>logRequest\<close> pushes: the properties in the
  order in which they were set, strings quoted and escaped, headers and body being
  JSON text already.\<close>

fun decimal_digits :: "nat \<Rightarrow> string" where
  "decimal_digits n =
     (if n < 10 then [char_of (48 + n)] else decimal_digits (n div 10) @ [char_of (48 + n mod 10)])"

declare decimal_digits.simps [simp del]

definition show_int :: "int \<Rightarrow> string" where
  "show_int i = (if i < 0 then ''-'' @ decimal_digits (nat (- i)) else decimal_digits (nat i))"

definition hex_digit :: "nat \<Rightarrow> char" where
  "hex_digit n = ''0123456789abcdef'' ! n"

definition quote_char :: "char \<Rightarrow> string" where
  "quote_char c =
     (let b = byte c in
      if b = 8 then [CHR 0x5C, CHR ''b'']
      else if b = 9 then [CHR 0x5C, CHR ''t'']
      else if b = 10 then [CHR 0x5C, CHR ''n'']
      else if b = 12 then [CHR 0x5C, CHR ''f'']
      else if b = 13 then [CHR 0x5C, CHR ''r'']
      else if b = 34 then [CHR 0x5C, CHR 0x22]
      else if b = 92 then [CHR 0x5C, CHR 0x5C]
      else if b < 32 then
        [CHR 0x5C, CHR ''u'', CHR ''0'', CHR ''0'', hex_digit (b div 16), hex_digit (b mod 16)]
      else [c])"

definition quote_json :: "string \<Rightarrow> string" where
  "quote_json s = [CHR 0x22] @ concat (map quote_char s) @ [CHR 0x22]"

definition json_stringify :: "log_entry \<Rightarrow> string" where
  "json_stringify log =
     ''{'' @ quote_json ''url'' @ '':'' @ quote_json (url log)
     @ '','' @ quote_json ''method'' @ '':'' @ quote_json (http_method log)
     @ '','' @ quote_json ''headers'' @ '':'' @ headers log
     @ '','' @ quote_json ''body'' @ '':'' @ body log
     @ '','' @ quote_json ''timestamp'' @ '':'' @ quote_json (timestamp log)
     @ '','' @ quote_json ''logNumber'' @ '':'' @ show_int (logNumber log) @ ''}''"

section \<open>Example values\<close>

text \<open>Runs of the two servers from the empty state, with the library functions above.\<close>

definition sql_run :: "event list \<Rightarrow> db_file server" where
  "sql_run evs = run json_stringify sqlite_numeric js_decodeURIComponent evs init_server"

definition json_run :: "event_json list \<Rightarrow> bin_doc server" where
  "json_run evs = run_json json_stringify js_parseInt js_decodeURIComponent evs init_server"

definition get_request :: "string \<Rightarrow> request" where
  "get_request u = \<lparr>originalUrl = u, req_method = ''GET'', req_headers = ''{}'', req_body = ''{}''\<rparr>"

definition entry_a :: log_entry where
  "entry_a = with_logNumber (requestData_of (get_request ''/b1/a'') ''t1'') 1"

definition entry_b :: log_entry where
  "entry_b = with_logNumber (requestData_of (get_request ''/b1/b?x=1'') ''t2'') 2"


definition db_two :: db_file where
  "db_two = \<lparr>metadata = [''demo''], requests_tbl = [entry_a, entry_b], sqlite_sequence = 2\<rparr>"

definition doc_two :: bin_doc where
  "doc_two = \<lparr>name = NameFalse, requests = Some [entry_a, entry_b]\<rparr>"

text \<open>A bin created and two requests captured, on each server.\<close>

definition two_captures :: "event list" where
  "two_captures =
     [CreateUrl ''b1'' (Some ''demo''),
      Capture (get_request ''/b1/a'') ''t1'',
      Capture (get_request ''/b1/b?x=1'') ''t2'']"

definition sql_two :: "db_file server" where
  "sql_two = sql_run two_captures"

definition json_two :: "bin_doc server" where
  "json_two =
     json_run
       [CreateUrlJ ''b1'' (Some ''demo''),
        CaptureJ (get_request ''/b1/a'') ''t1'',
        CaptureJ (get_request ''/b1/b?x=1'') ''t2'']"

text \<open>The log numbers stored for a bin, in stored order.\<close>

definition log_numbers :: "db_file server \<Rightarrow> guid \<Rightarrow> int list" where
  "log_numbers s g = (case map_of (files s) g of None \<Rightarrow> [] | Some d \<Rightarrow> map logNumber (requests_tbl d))"

definition log_numbers_json :: "bin_doc server \<Rightarrow> guid \<Rightarrow> int list" where
  "log_numbers_json s g =
     (case map_of (files s) g of
        None \<Rightarrow> []
      | Some data \<Rightarrow> (case requests data of None \<Rightarrow> [] | Some rs \<Rightarrow> map logNumber rs))"

text \<open>A bin with one streaming connection (response object 7) and no entry yet, and some
  traffic: two captures to the bin with a timer tick in between, the second capture
  with an escaped character in the bin segment of its URL.\<close>

definition db_fresh :: db_file where
  "db_fresh = \<lparr>metadata = [''Untitled''], requests_tbl = [], sqlite_sequence = 0\<rparr>"

definition sql_subscribed :: "db_file server" where
  "sql_subscribed = sql_run [CreateUrl ''b1'' None, LogsStream ''b1'' 7]"

definition json_subscribed :: "bin_doc server" where
  "json_subscribed = json_run [CreateUrlJ ''b1'' None, LogsStreamJ ''b1'' 7]"

definition traffic :: "event list" where
  "traffic =
     [Capture (get_request ''/b1/a'') ''t1'', KeepAlive 7, Capture (get_request ''/%621/b?x=1'') ''t2'']"

definition traffic_json :: "event_json list" where
  "traffic_json = [CaptureJ (get_request ''/b1/a'') ''t1'', CaptureJ (get_request ''/%621/b?x=1'') ''t2'']"

text \<open>Histories with deletions. On the SQLite server: three captures, then entry 3
  deleted, then all entries deleted. On the JSON server: three captures, then entry 1
  deleted.\<close>

definition sql_history :: "event list" where
  "sql_history =
     [CreateUrl ''b1'' None,
      Capture (get_request ''/b1/a'') ''t1'',
      Capture (get_request ''/b1/b?x=1'') ''t2'',
      Capture (get_request ''/b1/a'') ''t3'',
      DeleteLog ''b1'' ''3'']"

definition sql_history_later :: "event list" where
  "sql_history_later = [DeleteLogs ''b1'' None]"

definition json_history :: "event_json list" where
  "json_history =
     [CreateUrlJ ''b1'' None,
      CaptureJ (get_request ''/b1/a'') ''t1'',
      CaptureJ (get_request ''/b1/b?x=1'') ''t2'',
      CaptureJ (get_request ''/b1/a'') ''t3'',
      DeleteLogJ ''b1'' ''1'']"

section \<open>Notions used in the statements\<close>

text \<open>How often a response object occurs in the array registered for a guid, and the data
  events among the chunks written to a response object.\<close>

definition subscriptions :: "'f server \<Rightarrow> guid \<Rightarrow> res \<Rightarrow> nat" where
  "subscriptions s g c = (case map_of (sseClients s) g of None \<Rightarrow> 0 | Some clients \<Rightarrow> count_list clients c)"

definition data_events :: "'f server \<Rightarrow> res \<Rightarrow> string list" where
  "data_events s c = filter is_data_event (streams s c)"

text \<open>The request data of a stored entry.\<close>

definition data_of :: "log_entry \<Rightarrow> request_data" where
  "data_of log =
     \<lparr>url = url log, http_method = http_method log, headers = headers log, body = body log,
      timestamp = timestamp log\<rparr>"


fun captures_to :: "(string \<Rightarrow> string option) \<Rightarrow> guid \<Rightarrow> event list \<Rightarrow> request_data list" where
  "captures_to decode g [] = []"
| "captures_to decode g (Capture req now # evs) =
     (if capture_route decode (originalUrl req) = Some g
      then requestData_of req now # captures_to decode g evs else captures_to decode g evs)"
| "captures_to decode g (_ # evs) = captures_to decode g evs"

text \<open>Every call except the deletion of the bin \<open>g\<close>.\<close>

fun keeps_bin :: "guid \<Rightarrow> event \<Rightarrow> bool" where
  "keeps_bin g (DeleteUrl g') = (g' \<noteq> g)"
| "keeps_bin g _ = True"

text \<open>Every call except a streaming request that registers the response object \<open>c\<close>.\<close>

fun not_registering :: "res \<Rightarrow> event \<Rightarrow> bool" where
  "not_registering c (LogsStream g r) = (r \<noteq> c)"
| "not_registering c _ = True"

fun not_registering_json :: "res \<Rightarrow> event_json \<Rightarrow> bool" where
  "not_registering_json c (LogsStreamJ g r) = (r \<noteq> c)"
| "not_registering_json c _ = True"

text \<open>The log numbers of a \<^verbatim>\<open>requests\<close> table are positive, strictly increasing in rowid
  order, and not above the AUTOINCREMENT counter.\<close>

definition db_inv :: "db_file \<Rightarrow> bool" where
  "db_inv d =
     (sorted_wrt (<) (map logNumber (requests_tbl d))
      \<and> list_all (\<lambda>row. 0 < logNumber row \<and> logNumber row \<le> sqlite_sequence d) (requests_tbl d)
      \<and> 0 \<le> sqlite_sequence d)"

section \<open>Helper lemmas\<close>

lemma reply_of_simps:
  "reply_of \<lparr>status = n, error = None\<rparr> = SendStatus n"
  "reply_of \<lparr>status = n, error = Some e\<rparr> = StatusSend n e"
  by (simp_all add: reply_of_def)

lemma with_logNumber_sel [simp]:
  "logNumber (with_logNumber rd n) = n"
  "url (with_logNumber rd n) = url rd"
  "data_of (with_logNumber rd n) = rd"
  by (simp_all add: with_logNumber_def data_of_def)

lemma filter_distinct_key_remove1:
  "distinct (map f xs) \<Longrightarrow> e \<in> set xs \<Longrightarrow> filter (\<lambda>x. f x \<noteq> f e) xs = remove1 e xs"
proof (induction xs)
  case Nil
  then show ?case by simp
next
  case (Cons x xs)
  show ?case
  proof (cases "x = e")
    case True
    from Cons.prems True have "f e \<notin> f ` set xs" by simp
    then have "\<forall>y\<in>set xs. f y \<noteq> f e" by (metis imageI)
    then have "filter (\<lambda>y. f y \<noteq> f e) xs = xs" by (simp add: filter_id_conv)
    with True show ?thesis by simp
  next
    case False
    with Cons.prems have "e \<in> set xs" "f x \<noteq> f e" by auto
    with Cons False show ?thesis by auto
  qed
qed

lemma first_segment_prefix:
  assumes "first_segment u = Some seg"
  shows "seg \<noteq> [] \<and> u = CHR ''/'' # seg @ drop (Suc (length seg)) u"
proof (cases u)
  case Nil
  with assms show ?thesis by (simp add: first_segment_def)
next
  case (Cons c rest)
  let ?p = "\<lambda>x. x \<noteq> CHR ''/'' \<and> x \<noteq> CHR ''?'' \<and> x \<noteq> CHR ''#''"
  from assms Cons have c: "c = CHR ''/''" and seg: "seg = takeWhile ?p rest" and ne: "seg \<noteq> []"
    by (auto simp: first_segment_def Let_def split: if_splits)
  have "rest = takeWhile ?p rest @ dropWhile ?p rest" by simp
  then have "drop (length seg) rest = dropWhile ?p rest"
    using seg by (metis append_eq_conv_conj)
  then have "rest = seg @ drop (length seg) rest" using seg by simp
  with Cons c ne show ?thesis by simp
qed

lemma capture_route_segment:
  assumes "capture_route decode u = Some g"
  shows "\<exists>seg. seg \<noteq> [] \<and> decode seg = Some g \<and> u = CHR ''/'' # seg @ drop (Suc (length seg)) u"
proof (cases "first_segment u")
  case None
  with assms show ?thesis by (simp add: capture_route_def)
next
  case (Some seg)
  with assms have "decode seg = Some g" by (simp add: capture_route_def)
  with first_segment_prefix [OF Some] show ?thesis by blast
qed


subsection \<open>The example states\<close>

lemma sql_two_files: "files sql_two = [(''b1'', db_two)]"
  by code_simp

lemma json_two_files: "files json_two = [(''b1'', doc_two)]"
  by code_simp

lemma entry_numbers: "logNumber entry_a = 1" "logNumber entry_b = 2"
  by (simp_all add: entry_a_def entry_b_def)

subsection \<open>Writes to the registered response objects\<close>

lemma res_write_apply:
  "res_write x m st c = (if c = x then st x @ [m] else st c)"
  by (simp add: res_write_def)

lemma fold_res_write:
  "fold (\<lambda>client. res_write client m) cs st c = st c @ replicate (count_list cs c) m"
proof (induction cs arbitrary: st)
  case Nil
  then show ?case by simp
next
  case (Cons x cs)
  have "fold (\<lambda>client. res_write client m) (x # cs) st c
          = fold (\<lambda>client. res_write client m) cs (res_write x m st) c"
    by simp
  also have "\<dots> = res_write x m st c @ replicate (count_list cs c) m"
    by (rule Cons.IH)
  also have "\<dots> = st c @ replicate (count_list (x # cs) c) m"
    by (simp add: res_write_apply)
  finally show ?case .
qed

lemma subscriptions_update [simp]:
  "subscriptions (s\<lparr>files := F\<rparr>) g c = subscriptions s g c"
  "subscriptions (s\<lparr>streams := S\<rparr>) g c = subscriptions s g c"
  "subscriptions (s\<lparr>intervals := I\<rparr>) g c = subscriptions s g c"
  "subscriptions (s\<lparr>live := L\<rparr>) g c = subscriptions s g c"
  by (simp_all add: subscriptions_def)

lemma push_fields [simp]:
  "files (pushUpdateToClients f g log s) = files s"
  "sseClients (pushUpdateToClients f g log s) = sseClients s"
  "intervals (pushUpdateToClients f g log s) = intervals s"
  "live (pushUpdateToClients f g log s) = live s"
  by (simp_all add: pushUpdateToClients_def split: option.splits)

lemma push_streams:
  "streams (pushUpdateToClients f g log s) c
     = streams s c @ replicate (subscriptions s g c) (data_chunk f log)"
  by (simp add: pushUpdateToClients_def subscriptions_def fold_res_write split: option.splits)

lemma is_data_event_simps [simp]:
  "is_data_event (data_chunk f log)"
  "\<not> is_data_event keep_alive_chunk"
  "is_comment keep_alive_chunk"
  by (simp_all add: is_data_event_def data_chunk_def keep_alive_chunk_def is_comment_def)

lemma logRequest_existing:
  assumes "map_of (files s) g = Some d"
  shows "logRequest f g rd s =
           (\<lparr>status = 200, error = None\<rparr>,
            pushUpdateToClients f g (with_logNumber rd (fst (insert_request rd d)))
              (s\<lparr>files := AList.update g (snd (insert_request rd d)) (files s)\<rparr>))"
  using assms by (simp add: logRequest_def initDb_def Let_def split: prod.splits)

lemma logRequest_json_existing:
  assumes "map_of (files s) g = Some doc"
  shows "logRequest_json f g rd s =
           (\<lparr>status = 200, error = None\<rparr>,
            pushUpdateToClients f g
              (with_logNumber rd (int (length (case requests doc of None \<Rightarrow> [] | Some rs \<Rightarrow> rs)) + 1))
              (s\<lparr>files := AList.update g
                   (doc\<lparr>requests := Some ((case requests doc of None \<Rightarrow> [] | Some rs \<Rightarrow> rs)
                        @ [with_logNumber rd (int (length (case requests doc of None \<Rightarrow> [] | Some rs \<Rightarrow> rs)) + 1)])\<rparr>)
                   (files s)\<rparr>))"
  using assms by (simp add: logRequest_json_def Let_def)

lemma logRequest_missing:
  "map_of (files s) g = None \<Longrightarrow> logRequest f g rd s = (\<lparr>status = 404, error = Some ''Not found''\<rparr>, s)"
  by (simp add: logRequest_def)

lemma logRequest_json_missing:
  "map_of (files s) g = None \<Longrightarrow> logRequest_json f g rd s = (\<lparr>status = 404, error = Some ''File not found''\<rparr>, s)"
  by (simp add: logRequest_json_def)

lemma capture_sseClients [simp]: "sseClients (snd (capture f g req now s)) = sseClients s"
  by (cases "map_of (files s) g") (auto simp: capture_def logRequest_existing logRequest_missing)

lemma capture_json_sseClients [simp]: "sseClients (snd (capture_json f g req now s)) = sseClients s"
  by (cases "map_of (files s) g") (auto simp: capture_json_def logRequest_json_existing logRequest_json_missing)

lemma capture_unsubscribed:
  "subscriptions s g c = 0 \<Longrightarrow> streams (snd (capture f g req now s)) c = streams s c"
  by (cases "map_of (files s) g") (auto simp: capture_def logRequest_existing logRequest_missing push_streams)

lemma capture_json_unsubscribed:
  "subscriptions s g c = 0 \<Longrightarrow> streams (snd (capture_json f g req now s)) c = streams s c"
  by (cases "map_of (files s) g") (auto simp: capture_json_def logRequest_json_existing logRequest_json_missing push_streams)

lemma capture_other_file:
  "g' \<noteq> g \<Longrightarrow> map_of (files (snd (capture f g' req now s))) g = map_of (files s) g"
  by (cases "map_of (files s) g'") (auto simp: capture_def logRequest_existing logRequest_missing update_conv')

lemma capture_existing:
  assumes "map_of (files s) g = Some d"
  shows "map_of (files (snd (capture f g req now s))) g = Some (snd (insert_request (requestData_of req now) d))"
    and "streams (snd (capture f g req now s)) c
           = streams s c @ replicate (subscriptions s g c)
               (data_chunk f (with_logNumber (requestData_of req now) (fst (insert_request (requestData_of req now) d))))"
  using assms by (simp_all add: capture_def logRequest_existing update_conv' push_streams subscriptions_def)

lemma keepAlive_fields [simp]:
  "files (keepAlive r s) = files s"
  "sseClients (keepAlive r s) = sseClients s"
  "intervals (keepAlive r s) = intervals s"
  "live (keepAlive r s) = live s"
  by (simp_all add: keepAlive_def)

lemma keepAlive_streams:
  "streams (keepAlive r s) c = streams s c @ (if r = c \<and> c \<in> set (intervals s) then [keep_alive_chunk] else [])"
  by (simp add: keepAlive_def res_write_apply)



lemma captures_to_Cons: "captures_to dec g (ev # evs) = captures_to dec g [ev] @ captures_to dec g evs"
  by (cases ev) simp_all


subsection \<open>Response objects that are not registered\<close>

lemma count_list_filter_le: "count_list (filter P xs) c \<le> count_list xs c"
  by (induction xs) auto

lemma subscriptions_on_close:
  "subscriptions (snd (on_close g r s)) g' c \<le> subscriptions s g' c"
  using count_list_filter_le [of "\<lambda>client. client \<noteq> r" _ c]
  by (auto simp: on_close_def Let_def subscriptions_def update_conv' split: option.splits)

lemma subscriptions_on_close_json:
  "subscriptions (snd (on_close_json g r s)) g' c \<le> subscriptions s g' c"
  using count_list_filter_le [of "\<lambda>client. client \<noteq> r" _ c]
  by (auto simp: on_close_json_def Let_def subscriptions_def update_conv' split: option.splits)

lemma on_close_streams [simp]:
  "streams (snd (on_close g r s)) = streams s"
  "streams (snd (on_close_json g r js)) = streams js"
  by (simp_all add: on_close_def on_close_json_def Let_def split: option.splits)

lemma step_unregistered:
  assumes none: "\<forall>g. subscriptions s g c = 0" and ev: "not_registering c ev"
  shows "(\<forall>g. subscriptions (step f num dec ev s) g c = 0)
       \<and> data_events (step f num dec ev s) c = data_events s c"
proof (cases ev)
  case (CreateUrl g nm)
  then show ?thesis using none
    by (simp add: create_url_def initDb_def Let_def data_events_def split: option.splits)
next
  case (DeleteUrl g)
  then show ?thesis using none
    by (simp add: delete_url_def subscriptions_def delete_conv' data_events_def split: option.splits)
next
  case (DeleteLog g seg)
  then show ?thesis using none
    by (simp add: delete_log_def data_events_def split: option.splits)
next
  case (DeleteLogs g logs)
  then show ?thesis using none
    by (simp add: delete_logs_def data_events_def split: option.splits)
next
  case (RenameUrl g nm)
  then show ?thesis using none
    by (simp add: rename_url_def data_events_def split: option.splits)
next
  case (LogsStream g r)
  with ev have "r \<noteq> c" by simp
  with LogsStream show ?thesis using none
    by (simp add: logs_stream_def subscriptions_def register_def update_conv' data_events_def
        split: option.splits)
next
  case (KeepAlive r)
  then show ?thesis using none
    by (simp add: data_events_def keepAlive_streams subscriptions_def)
next
  case (Close g r)
  have "\<forall>g'. subscriptions (snd (on_close g r s)) g' c = 0"
    using none subscriptions_on_close [of g r s _ c] by (metis le_zero_eq)
  with Close show ?thesis by (simp add: data_events_def)
next
  case (Capture req now)
  show ?thesis
  proof (cases "capture_route dec (originalUrl req)")
    case None
    with Capture none show ?thesis by simp
  next
    case (Some g')
    with Capture none show ?thesis
      by (simp add: subscriptions_def capture_unsubscribed data_events_def)
  qed
qed

lemma run_unregistered:
  assumes "\<forall>g. subscriptions s g c = 0" and "list_all (not_registering c) evs"
  shows "data_events (run f num dec evs s) c = data_events s c"
  using assms
proof (induction evs arbitrary: s)
  case Nil
  then show ?case by (simp add: run_def)
next
  case (Cons ev evs)
  from Cons.prems have ev: "not_registering c ev" and evs: "list_all (not_registering c) evs"
    by simp_all
  from step_unregistered [OF Cons.prems(1) ev, of f num dec]
  have 1: "\<forall>g. subscriptions (step f num dec ev s) g c = 0"
    and 2: "data_events (step f num dec ev s) c = data_events s c" by simp_all
  have "run f num dec (ev # evs) s = run f num dec evs (step f num dec ev s)" by (simp add: run_def)
  then show ?case using Cons.IH [OF 1 evs] 2 by simp
qed

lemma step_json_unregistered:
  assumes none: "\<forall>g. subscriptions s g c = 0" and ev: "not_registering_json c ev"
  shows "(\<forall>g. subscriptions (step_json f parseInt dec ev s) g c = 0)
       \<and> data_events (step_json f parseInt dec ev s) c = data_events s c"
proof (cases ev)
  case (CreateUrlJ g nm)
  then show ?thesis using none
    by (simp add: create_url_json_def data_events_def)
next
  case (DeleteUrlJ g)
  then show ?thesis using none
    by (simp add: delete_url_def subscriptions_def delete_conv' data_events_def split: option.splits)
next
  case (DeleteLogJ g seg)
  then show ?thesis using none
    by (simp add: delete_log_json_def data_events_def split: option.splits)
next
  case (RenameUrlJ g nm)
  then show ?thesis using none
    by (simp add: rename_url_json_def data_events_def split: option.splits)
next
  case (LogsStreamJ g r)
  with ev have "r \<noteq> c" by simp
  with LogsStreamJ show ?thesis using none
    by (simp add: logs_stream_json_def subscriptions_def register_def update_conv' data_events_def
        split: option.splits)
next
  case (CloseJ g r)
  have "\<forall>g'. subscriptions (snd (on_close_json g r s)) g' c = 0"
    using none subscriptions_on_close_json [of g r s _ c] by (metis le_zero_eq)
  with CloseJ show ?thesis by (simp add: data_events_def)
next
  case (CaptureJ req now)
  show ?thesis
  proof (cases "capture_route dec (originalUrl req)")
    case None
    with CaptureJ none show ?thesis by simp
  next
    case (Some g')
    with CaptureJ none show ?thesis
      by (simp add: subscriptions_def capture_json_unsubscribed data_events_def)
  qed
qed

lemma run_json_unregistered:
  assumes "\<forall>g. subscriptions s g c = 0" and "list_all (not_registering_json c) evs"
  shows "data_events (run_json f parseInt dec evs s) c = data_events s c"
  using assms
proof (induction evs arbitrary: s)
  case Nil
  then show ?case by (simp add: run_json_def)
next
  case (Cons ev evs)
  from Cons.prems have ev: "not_registering_json c ev" and evs: "list_all (not_registering_json c) evs"
    by simp_all
  from step_json_unregistered [OF Cons.prems(1) ev, of f parseInt dec]
  have 1: "\<forall>g. subscriptions (step_json f parseInt dec ev s) g c = 0"
    and 2: "data_events (step_json f parseInt dec ev s) c = data_events s c" by simp_all
  have "run_json f parseInt dec (ev # evs) s = run_json f parseInt dec evs (step_json f parseInt dec ev s)" by (simp add: run_json_def)
  then show ?case using Cons.IH [OF 1 evs] 2 by simp
qed

lemma delete_url_existing:
  assumes "map_of (files s) g = Some d"
  shows "delete_url g s
           = (SendStatus 200,
              s\<lparr>files := AList.delete g (files s), sseClients := AList.delete g (sseClients s)\<rparr>)"
  using assms by (simp add: delete_url_def)

subsection \<open>The AUTOINCREMENT counter\<close>

lemma fold_max_bound: "\<forall>x\<in>set xs. x \<le> b \<Longrightarrow> a \<le> b \<Longrightarrow> fold max xs a \<le> (b::int)"
  by (induction xs arbitrary: a) auto

lemma db_inv_max_rowid: "db_inv d \<Longrightarrow> max (sqlite_sequence d) (max_rowid (requests_tbl d)) = sqlite_sequence d"
proof -
  assume inv: "db_inv d"
  then have "\<forall>x\<in>set (map logNumber (requests_tbl d)). x \<le> sqlite_sequence d"
    by (auto simp: db_inv_def list_all_iff)
  moreover have "0 \<le> sqlite_sequence d" using inv by (simp add: db_inv_def)
  ultimately have "max_rowid (requests_tbl d) \<le> sqlite_sequence d"
    unfolding max_rowid_def by (rule fold_max_bound)
  then show ?thesis by simp
qed

lemma db_inv_insert:
  assumes "db_inv d"
  shows "insert_request rd d
           = (sqlite_sequence d + 1,
              d\<lparr>requests_tbl := requests_tbl d @ [with_logNumber rd (sqlite_sequence d + 1)],
                sqlite_sequence := sqlite_sequence d + 1\<rparr>)"
    and "db_inv (snd (insert_request rd d))"
proof -
  show eq: "insert_request rd d
           = (sqlite_sequence d + 1,
              d\<lparr>requests_tbl := requests_tbl d @ [with_logNumber rd (sqlite_sequence d + 1)],
                sqlite_sequence := sqlite_sequence d + 1\<rparr>)"
    by (simp add: insert_request_def Let_def db_inv_max_rowid [OF assms])
  have "\<forall>row\<in>set (requests_tbl d). logNumber row < sqlite_sequence d + 1"
    using assms by (auto simp: db_inv_def list_all_iff)
  then show "db_inv (snd (insert_request rd d))"
    using assms unfolding eq by (auto simp: db_inv_def sorted_wrt_append list_all_iff)
qed

lemma db_inv_filter: "db_inv d \<Longrightarrow> db_inv (d\<lparr>requests_tbl := filter P (requests_tbl d)\<rparr>)"
  by (auto simp: db_inv_def list_all_iff sorted_wrt_map intro: sorted_wrt_filter)

lemma db_inv_simps [simp]:
  "db_inv empty_db"
  "db_inv (d\<lparr>metadata := m\<rparr>) = db_inv d"
  "db_inv d \<Longrightarrow> db_inv (d\<lparr>requests_tbl := []\<rparr>)"
  by (simp_all add: db_inv_def empty_db_def)

lemma step_db_inv:
  assumes "\<forall>g d. map_of (files s) g = Some d \<longrightarrow> db_inv d"
  shows "\<forall>g d. map_of (files (step f num dec ev s)) g = Some d \<longrightarrow> db_inv d"
proof (cases ev)
  case (CreateUrl g nm)
  then show ?thesis using assms
    by (auto simp: create_url_def initDb_def Let_def update_conv' split: option.splits if_splits)
next
  case (DeleteUrl g)
  then show ?thesis using assms
    by (auto simp: delete_url_def delete_conv' split: option.splits if_splits)
next
  case (DeleteLog g seg)
  then show ?thesis using assms
    by (auto simp: delete_log_def delete_where_logNumber_def update_conv' db_inv_filter
        split: option.splits if_splits)
next
  case (DeleteLogs g logs)
  then show ?thesis using assms
    by (auto simp: delete_logs_def update_conv' db_inv_filter split: option.splits if_splits)
next
  case (RenameUrl g nm)
  then show ?thesis using assms
    by (auto simp: rename_url_def update_conv' split: option.splits if_splits)
next
  case (LogsStream g r)
  then show ?thesis using assms by (simp add: logs_stream_def)
next
  case (KeepAlive r)
  then show ?thesis using assms by simp
next
  case (Close g r)
  then show ?thesis using assms by (simp add: on_close_def Let_def split: option.splits)
next
  case (Capture req now)
  show ?thesis
  proof (cases "capture_route dec (originalUrl req)")
    case None
    with Capture assms show ?thesis by simp
  next
    case (Some g')
    show ?thesis
    proof (cases "map_of (files s) g'")
      case None
      with Capture Some assms show ?thesis
        by (simp add: capture_def logRequest_missing)
    next
      case (Some d0)
      then have "db_inv d0" using assms by simp
      then have "db_inv (snd (insert_request (requestData_of req now) d0))"
        by (rule db_inv_insert(2))
      with Capture \<open>capture_route dec (originalUrl req) = Some g'\<close> Some assms show ?thesis
        by (simp add: capture_def logRequest_existing update_conv')
    qed
  qed
qed

lemma run_db_inv:
  "\<forall>g d. map_of (files s) g = Some d \<longrightarrow> db_inv d
   \<Longrightarrow> \<forall>g d. map_of (files (run f num dec evs s)) g = Some d \<longrightarrow> db_inv d"
proof (induction evs arbitrary: s)
  case Nil
  then show ?case by (simp add: run_def)
next
  case (Cons ev evs)
  have "run f num dec (ev # evs) s = run f num dec evs (step f num dec ev s)" by (simp add: run_def)
  then show ?case using Cons.IH [OF step_db_inv [OF Cons.prems]] by simp
qed

lemma reachable_db_inv:
  "map_of (files (run f num dec evs init_server)) g = Some d \<Longrightarrow> db_inv d"
  using run_db_inv [of init_server f num dec evs] by (simp add: init_server_def)

lemma run_append: "run f num dec (evs @ later) s = run f num dec later (run f num dec evs s)"
  by (simp add: run_def)

lemma step_counter:
  assumes inv: "\<forall>g d. map_of (files s) g = Some d \<longrightarrow> db_inv d"
      and bin: "map_of (files s) g = Some d"
      and keep: "keeps_bin g ev"
  shows "\<exists>d1. map_of (files (step f num dec ev s)) g = Some d1
            \<and> sqlite_sequence d1 = sqlite_sequence d + int (length (captures_to dec g [ev]))"
proof (cases ev)
  case (CreateUrl g' nm)
  then show ?thesis using bin
    by (cases "g' = g")
       (auto simp: create_url_def initDb_def Let_def update_conv' split: option.splits)
next
  case (DeleteUrl g')
  then show ?thesis using bin keep
    by (auto simp: delete_url_def delete_conv' split: option.splits)
next
  case (DeleteLog g' seg)
  then show ?thesis using bin
    by (auto simp: delete_log_def delete_where_logNumber_def update_conv' split: option.splits)
next
  case (DeleteLogs g' logs)
  then show ?thesis using bin
    by (auto simp: delete_logs_def update_conv' split: option.splits)
next
  case (RenameUrl g' nm)
  then show ?thesis using bin
    by (auto simp: rename_url_def update_conv' split: option.splits)
next
  case (LogsStream g' r)
  then show ?thesis using bin by (simp add: logs_stream_def)
next
  case (KeepAlive r)
  then show ?thesis using bin by simp
next
  case (Close g' r)
  then show ?thesis using bin by (simp add: on_close_def Let_def split: option.splits)
next
  case (Capture req now)
  show ?thesis
  proof (cases "capture_route dec (originalUrl req)")
    case None
    with Capture bin show ?thesis by simp
  next
    case (Some g')
    show ?thesis
    proof (cases "g' = g")
      case True
      have "db_inv d" using inv bin by blast
      then have "sqlite_sequence (snd (insert_request (requestData_of req now) d)) = sqlite_sequence d + 1"
        by (simp add: db_inv_insert(1))
      with Capture Some True capture_existing(1) [OF bin, of f req now] show ?thesis by simp
    next
      case False
      with Capture Some bin capture_other_file [of g' g f req now s] show ?thesis by simp
    qed
  qed
qed

lemma run_counter:
  assumes "\<forall>g d. map_of (files s) g = Some d \<longrightarrow> db_inv d"
      and "map_of (files s) g = Some d"
      and "list_all (keeps_bin g) evs"
  shows "\<exists>d'. map_of (files (run f num dec evs s)) g = Some d'
            \<and> sqlite_sequence d' = sqlite_sequence d + int (length (captures_to dec g evs))"
  using assms
proof (induction evs arbitrary: s d)
  case Nil
  then show ?case by (simp add: run_def)
next
  case (Cons ev evs)
  from Cons.prems(3) have ev: "keeps_bin g ev" and evs: "list_all (keeps_bin g) evs" by simp_all
  from step_counter [OF Cons.prems(1,2) ev, of f num dec]
  obtain d1 where d1: "map_of (files (step f num dec ev s)) g = Some d1"
    and c1: "sqlite_sequence d1 = sqlite_sequence d + int (length (captures_to dec g [ev]))"
    by blast
  from Cons.IH [OF step_db_inv [OF Cons.prems(1)] d1 evs]
  obtain d' where d': "map_of (files (run f num dec evs (step f num dec ev s))) g = Some d'"
    and c': "sqlite_sequence d' = sqlite_sequence d1 + int (length (captures_to dec g evs))"
    by blast
  have "run f num dec (ev # evs) s = run f num dec evs (step f num dec ev s)" by (simp add: run_def)
  with d' c' c1 captures_to_Cons [of dec g ev evs] show ?case by simp
qed

subsection \<open>The JSON text of an entry determines its logNumber\<close>










section \<open>Assignment of log numbers\<close>

text \<open>
  C1 (as amended). On the SQLite server, take any state that calls of the handlers can
  reach from the empty server and a bin \<open>g\<close> that exists in it, with database \<open>d\<close>, and
  let any further calls follow that do not delete the bin (deletions of single entries,
  of several and of all entries included). Then the bin still exists, and its
  AUTOINCREMENT counter is the counter of \<open>d\<close> plus the number of captures addressed to
  the bin since; every logNumber that the bin held then or holds now is positive and
  not above the counter; a capture appended now is stored with logNumber one greater
  than the counter, which becomes that number; and the log numbers of the bin are
  strictly increasing in insertion order, hence unique. A new bin starts with an empty
  log and the counter 0. So the number assigned is one greater than the largest
  logNumber the bin has ever held, whether or not that entry still exists, and 1 in a
  new bin. On the JSON server, in a bin whose entries are numbered 1 to n in order (a
  bin from which nothing has been deleted), the capture is stored with logNumber
  n + 1, and the entries are then numbered 1 to n + 1. On both servers the number is
  set by the store, whatever the request held.
\<close>

theorem logNumber_assignment:
  assumes "map_of (files (run f num dec evs init_server)) g = Some d"
      and "list_all (keeps_bin g) later"
      and "map_of (files js) jg = Some doc"
      and "requests doc = Some rs"
      and "map logNumber rs = map int [1..<Suc (length rs)]"
  shows "(\<exists>d'. map_of (files (run f num dec (evs @ later) init_server)) g = Some d'
           \<and> sqlite_sequence d' = sqlite_sequence d + int (length (captures_to dec g later))
           \<and> list_all (\<lambda>row. 0 < logNumber row \<and> logNumber row \<le> sqlite_sequence d')
                (requests_tbl d @ requests_tbl d')
           \<and> fst (logRequest f g rd (run f num dec (evs @ later) init_server))
               = \<lparr>status = 200, error = None\<rparr>
           \<and> map_of (files (snd (logRequest f g rd (run f num dec (evs @ later) init_server)))) g
               = Some (d'\<lparr>requests_tbl := requests_tbl d' @ [with_logNumber rd (sqlite_sequence d' + 1)],
                         sqlite_sequence := sqlite_sequence d' + 1\<rparr>)
           \<and> sorted_wrt (<) (map logNumber (requests_tbl d' @ [with_logNumber rd (sqlite_sequence d' + 1)]))
           \<and> distinct (map logNumber (requests_tbl d' @ [with_logNumber rd (sqlite_sequence d' + 1)])))
       \<and> (map_of (files t) k = None \<longrightarrow>
            map_of (files (snd (create_url k name_in t))) k
              = Some \<lparr>metadata = [case name_in of None \<Rightarrow> ''Untitled'' | Some n \<Rightarrow> n],
                      requests_tbl = [], sqlite_sequence = 0\<rparr>)
       \<and> fst (logRequest_json f jg rd js) = \<lparr>status = 200, error = None\<rparr>
       \<and> map_of (files (snd (logRequest_json f jg rd js))) jg
           = Some (doc\<lparr>requests := Some (rs @ [with_logNumber rd (int (length rs) + 1)])\<rparr>)
       \<and> map logNumber (rs @ [with_logNumber rd (int (length rs) + 1)])
           = map int [1..<Suc (Suc (length rs))]"
proof -
  let ?s = "run f num dec evs init_server"
  let ?s' = "run f num dec (evs @ later) init_server"
  have inv_s: "\<forall>g d. map_of (files ?s) g = Some d \<longrightarrow> db_inv d"
    using run_db_inv [of init_server f num dec evs] by (simp add: init_server_def)
  have inv: "db_inv d" using inv_s assms(1) by blast
  from run_counter [OF inv_s assms(1) assms(2), of f num dec]
  obtain d' where d': "map_of (files ?s') g = Some d'"
    and count: "sqlite_sequence d' = sqlite_sequence d + int (length (captures_to dec g later))"
    by (auto simp: run_append)
  have inv': "db_inv d'" by (rule reachable_db_inv [OF d'])
  have le: "sqlite_sequence d \<le> sqlite_sequence d'" using count by simp
  have held: "list_all (\<lambda>row. 0 < logNumber row \<and> logNumber row \<le> sqlite_sequence d')
                (requests_tbl d @ requests_tbl d')"
    using inv inv' le by (auto simp: db_inv_def list_all_iff)
  have inv'': "db_inv (snd (insert_request rd d'))" by (rule db_inv_insert(2) [OF inv'])
  have sorted: "sorted_wrt (<) (map logNumber (requests_tbl d' @ [with_logNumber rd (sqlite_sequence d' + 1)]))"
    using inv'' by (simp add: db_inv_insert(1) [OF inv'] db_inv_def)
  then have dist: "distinct (map logNumber (requests_tbl d' @ [with_logNumber rd (sqlite_sequence d' + 1)]))"
    using strict_sorted_iff by blast
  have sql: "map_of (files (snd (logRequest f g rd ?s'))) g
           = Some (d'\<lparr>requests_tbl := requests_tbl d' @ [with_logNumber rd (sqlite_sequence d' + 1)],
                     sqlite_sequence := sqlite_sequence d' + 1\<rparr>)"
    by (simp add: logRequest_existing [OF d'] db_inv_insert(1) [OF inv'] update_conv')
  have ok: "fst (logRequest f g rd ?s') = \<lparr>status = 200, error = None\<rparr>"
    by (simp add: logRequest_existing [OF d'])
  have first: "\<exists>d'. map_of (files ?s') g = Some d'
           \<and> sqlite_sequence d' = sqlite_sequence d + int (length (captures_to dec g later))
           \<and> list_all (\<lambda>row. 0 < logNumber row \<and> logNumber row \<le> sqlite_sequence d')
                (requests_tbl d @ requests_tbl d')
           \<and> fst (logRequest f g rd ?s') = \<lparr>status = 200, error = None\<rparr>
           \<and> map_of (files (snd (logRequest f g rd ?s'))) g
               = Some (d'\<lparr>requests_tbl := requests_tbl d' @ [with_logNumber rd (sqlite_sequence d' + 1)],
                         sqlite_sequence := sqlite_sequence d' + 1\<rparr>)
           \<and> sorted_wrt (<) (map logNumber (requests_tbl d' @ [with_logNumber rd (sqlite_sequence d' + 1)]))
           \<and> distinct (map logNumber (requests_tbl d' @ [with_logNumber rd (sqlite_sequence d' + 1)]))"
    using d' count held ok sql sorted dist by blast
  have new: "map_of (files t) k = None \<longrightarrow>
            map_of (files (snd (create_url k name_in t))) k
              = Some \<lparr>metadata = [case name_in of None \<Rightarrow> ''Untitled'' | Some n \<Rightarrow> n],
                      requests_tbl = [], sqlite_sequence = 0\<rparr>"
    by (simp add: create_url_def initDb_def Let_def update_conv' empty_db_def)
  have json: "map_of (files (snd (logRequest_json f jg rd js))) jg
           = Some (doc\<lparr>requests := Some (rs @ [with_logNumber rd (int (length rs) + 1)])\<rparr>)"
    by (simp add: logRequest_json_existing [OF assms(3)] assms(4) update_conv')
  have jok: "fst (logRequest_json f jg rd js) = \<lparr>status = 200, error = None\<rparr>"
    by (simp add: logRequest_json_existing [OF assms(3)])
  have nums: "map logNumber (rs @ [with_logNumber rd (int (length rs) + 1)])
           = map int [1..<Suc (Suc (length rs))]"
    using assms(5) by simp
  show ?thesis
    using first new json jok nums by blast
qed

theorem logNumber_assignment_witness:
  "map_of (files (run json_stringify sqlite_numeric js_decodeURIComponent sql_history init_server)) ''b1''
     = Some \<lparr>metadata = [''Untitled''], requests_tbl = [entry_a, entry_b], sqlite_sequence = 3\<rparr>
   \<and> list_all (keeps_bin ''b1'') sql_history_later
   \<and> map_of (files json_two) ''b1'' = Some doc_two
   \<and> requests doc_two = Some [entry_a, entry_b]
   \<and> map logNumber [entry_a, entry_b] = map int [1..<Suc (length [entry_a, entry_b])]
   \<and> captures_to js_decodeURIComponent ''b1'' sql_history_later = []
   \<and> map_of (files (run json_stringify sqlite_numeric js_decodeURIComponent
                      (sql_history @ sql_history_later) init_server)) ''b1''
       = Some \<lparr>metadata = [''Untitled''], requests_tbl = [], sqlite_sequence = 3\<rparr>
   \<and> map_of (files (snd (logRequest json_stringify ''b1'' (requestData_of (get_request ''/b1/a'') ''t4'')
                             (run json_stringify sqlite_numeric js_decodeURIComponent
                                (sql_history @ sql_history_later) init_server)))) ''b1''
       = Some \<lparr>metadata = [''Untitled''],
               requests_tbl = [with_logNumber (requestData_of (get_request ''/b1/a'') ''t4'') 4],
               sqlite_sequence = 4\<rparr>
   \<and> map_of (files (snd (logRequest_json json_stringify ''b1'' (requestData_of (get_request ''/b1/a'') ''t4'')
                             json_two))) ''b1''
       = Some \<lparr>name = NameFalse,
               requests = Some [entry_a, entry_b, with_logNumber (requestData_of (get_request ''/b1/a'') ''t4'') 3]\<rparr>
   \<and> map_of (files (init_server :: db_file server)) ''b2'' = None
   \<and> map_of (files (snd (create_url ''b2'' None init_server))) ''b2''
       = Some \<lparr>metadata = [''Untitled''], requests_tbl = [], sqlite_sequence = 0\<rparr>"
proof -
  have h1: "map_of (files (run json_stringify sqlite_numeric js_decodeURIComponent sql_history init_server)) ''b1''
     = Some \<lparr>metadata = [''Untitled''], requests_tbl = [entry_a, entry_b], sqlite_sequence = 3\<rparr>"
    by code_simp
  have h2: "list_all (keeps_bin ''b1'') sql_history_later" by (simp add: sql_history_later_def)
  have h3: "map_of (files json_two) ''b1'' = Some doc_two" by (simp add: json_two_files)
  have h4: "requests doc_two = Some [entry_a, entry_b]" by (simp add: doc_two_def)
  have h5: "map logNumber [entry_a, entry_b] = map int [1..<Suc (length [entry_a, entry_b])]"
    by code_simp
  have caps: "captures_to js_decodeURIComponent ''b1'' sql_history_later = []"
    by (simp add: sql_history_later_def)
  have now: "map_of (files (run json_stringify sqlite_numeric js_decodeURIComponent
                      (sql_history @ sql_history_later) init_server)) ''b1''
       = Some \<lparr>metadata = [''Untitled''], requests_tbl = [], sqlite_sequence = 3\<rparr>"
    by code_simp
  have h6: "map_of (files (init_server :: db_file server)) ''b2'' = None"
    by (simp add: init_server_def)
  show ?thesis
    using logNumber_assignment
            [where rd = "requestData_of (get_request ''/b1/a'') ''t4''" and t = init_server
               and k = "''b2''" and name_in = None,
              OF h1 h2 h3 h4 h5]
      h1 h2 h3 h4 h5 h6 caps now
    by (auto simp: doc_two_def)
qed

text \<open>
  After three captures and the deletion of entry 1, the JSON server numbers the next
  capture 3, although entry 3 exists and the largest number present is 3. After three
  captures and the deletion of entry 3, the SQLite server numbers the next capture 4,
  although the largest number present is 2.
\<close>

theorem logNumber_not_max_plus_one_counterexample:
  "log_numbers_json (json_run json_history) ''b1'' = [2, 3]
   \<and> log_numbers_json (json_run (json_history @ [CaptureJ (get_request ''/b1/a'') ''t4''])) ''b1''
       = [2, 3, 3]
   \<and> \<not> distinct [2, 3, 3 :: int]
   \<and> log_numbers (sql_run sql_history) ''b1'' = [1, 2]
   \<and> log_numbers (sql_run (sql_history @ [Capture (get_request ''/b1/a'') ''t4''])) ''b1'' = [1, 2, 4]"
  by code_simp

section \<open>Capture to an unknown bin\<close>

text \<open>
  C2 (as amended). In the SQLite server and in the JSON server, a capture whose guid has
  no file is answered with 404 and leaves the whole server state as it was: no entry
  is stored, no bin is created, nothing is written to any stream.
\<close>

theorem capture_unknown_bin:
  assumes "map_of (files s) g = None" and "map_of (files js) g = None"
  shows "capture stringify g req now s = (StatusSend 404 ''Not found'', s)
       \<and> capture_json stringify g req now js = (StatusSend 404 ''File not found'', js)"
  using assms
  by (simp add: capture_def capture_json_def logRequest_def logRequest_json_def reply_of_simps)

theorem capture_unknown_bin_witness:
  "map_of (files sql_two) ''zz'' = None
   \<and> map_of (files json_two) ''zz'' = None
   \<and> capture json_stringify ''zz'' (get_request ''/zz/x'') ''t'' sql_two
       = (StatusSend 404 ''Not found'', sql_two)
   \<and> capture_json json_stringify ''zz'' (get_request ''/zz/x'') ''t'' json_two
       = (StatusSend 404 ''File not found'', json_two)"
  using capture_unknown_bin [of sql_two "''zz''" json_two json_stringify "get_request ''/zz/x''" "''t''"]
  by (simp add: sql_two_files json_two_files)

text \<open>The older flat-file server answers the same request with 200 and creates the file,
  holding the request as entry 1.\<close>

theorem capture_legacy_unknown_bin_counterexample:
  "map_of (files (init_server :: (log_entry list) server)) ''b1'' = None
   \<and> status_of (fst (capture_legacy json_stringify ''b1'' (get_request ''/b1/x'') ''t'' init_server)) = 200
   \<and> map fst (files (snd (capture_legacy json_stringify ''b1'' (get_request ''/b1/x'') ''t'' init_server)))
       = [''b1'']
   \<and> map_of (files (snd (capture_legacy json_stringify ''b1'' (get_request ''/b1/x'') ''t'' init_server))) ''b1''
       = Some [with_logNumber (requestData_of (get_request ''/b1/x'') ''t'') 1]"
  by (simp add: init_server_def capture_legacy_def logRequest_legacy_def pushUpdateToClients_def)

section \<open>Fetching a log\<close>




section \<open>Live streams\<close>




section \<open>Deleting one entry\<close>

text \<open>
  Both handlers keep the entries whose logNumber differs from the number read from the
  path segment. Where the log numbers of the bin are unique, that removes exactly the
  entry with that number and leaves every other entry in place and unchanged: on the
  SQLite server in every state that calls of the handlers can reach from the empty
  server, on the JSON server in every bin whose log numbers are unique.
\<close>

lemma delete_log_removes_one:
  assumes "map_of (files (run stringify numeric decode evs init_server)) g = Some d"
      and "e \<in> set (requests_tbl d)"
      and "numeric seg = Some (logNumber e)"
      and "map_of (files js) g = Some doc"
      and "requests doc = Some rs"
      and "je \<in> set rs"
      and "distinct (map logNumber rs)"
      and "parseInt jseg = Some (logNumber je)"
  shows "fst (delete_log numeric g seg (run stringify numeric decode evs init_server)) = SendStatus 200
       \<and> map_of (files (snd (delete_log numeric g seg (run stringify numeric decode evs init_server))))
           = (map_of (files (run stringify numeric decode evs init_server)))
               (g \<mapsto> d\<lparr>requests_tbl := remove1 e (requests_tbl d)\<rparr>)
       \<and> fst (delete_log_json parseInt g jseg js) = SendStatus 200
       \<and> map_of (files (snd (delete_log_json parseInt g jseg js)))
           = (map_of (files js))(g \<mapsto> doc\<lparr>requests := Some (remove1 je rs)\<rparr>)"
proof -
  have "db_inv d" by (rule reachable_db_inv [OF assms(1)])
  then have "sorted_wrt (<) (map logNumber (requests_tbl d))" by (simp add: db_inv_def)
  then have unique: "distinct (map logNumber (requests_tbl d))"
    using strict_sorted_iff by blast
  have "filter (\<lambda>row. Some (logNumber row) \<noteq> numeric seg) (requests_tbl d) = remove1 e (requests_tbl d)"
    using filter_distinct_key_remove1 [OF unique assms(2)] assms(3) by simp
  moreover have "filter (\<lambda>log. Some (logNumber log) \<noteq> parseInt jseg) rs = remove1 je rs"
    using filter_distinct_key_remove1 [OF assms(7) assms(6)] assms(8) by simp
  ultimately show ?thesis
    using assms(1,4,5)
    by (simp add: delete_log_def delete_log_json_def delete_where_logNumber_def update_conv')
qed

text \<open>
  C5 fails on the JSON server. The numbering by the length of the log (see C1) gives two
  entries the same number: after three captures, the deletion of entry 1 and one more
  capture, the log holds the numbers 2, 3, 3. Deleting entry 3 is answered with 200 and
  removes both entries numbered 3; the log then holds entry 2 only.
\<close>

theorem delete_log_json_removes_two:
  "log_numbers_json (json_run (json_history @ [CaptureJ (get_request ''/b1/a'') ''t4''])) ''b1''
     = [2, 3, 3]
   \<and> js_parseInt ''3'' = Some 3
   \<and> fst (delete_log_json js_parseInt ''b1'' ''3''
             (json_run (json_history @ [CaptureJ (get_request ''/b1/a'') ''t4''])))
       = SendStatus 200
   \<and> log_numbers_json
        (snd (delete_log_json js_parseInt ''b1'' ''3''
                (json_run (json_history @ [CaptureJ (get_request ''/b1/a'') ''t4'']))))
        ''b1''
       = [2]"
  by code_simp

section \<open>Deleting a bin\<close>

text \<open>
  C6 (as amended). Deleting an existing bin is answered with 200, removes the bin from
  the bin listing and removes the registry entry of its guid with every response
  object in it. A response object that was registered for no other guid then receives
  no further data event, whatever calls follow (short of a new streaming request being
  made with that very response object). The server does not close the connections:
  the open connections and the armed keep-alive timers are the same after the call as
  before it.
\<close>

theorem delete_url_drops_subscribers:
  assumes "map_of (files s) g = Some d"
      and "\<forall>g'. g' \<noteq> g \<longrightarrow> subscriptions s g' c = 0"
      and "list_all (not_registering c) evs"
      and "map_of (files js) g = Some doc"
      and "\<forall>g'. g' \<noteq> g \<longrightarrow> subscriptions js g' c = 0"
      and "list_all (not_registering_json c) jevs"
  shows "fst (delete_url g s) = SendStatus 200
       \<and> g \<notin> fst ` set (get_urls (snd (delete_url g s)))
       \<and> map_of (sseClients (snd (delete_url g s))) g = None
       \<and> data_events (run f num dec evs (snd (delete_url g s))) c = data_events s c
       \<and> live (snd (delete_url g s)) = live s
       \<and> intervals (snd (delete_url g s)) = intervals s
       \<and> fst (delete_url g js) = SendStatus 200
       \<and> g \<notin> fst ` set (get_urls_json (snd (delete_url g js)))
       \<and> map_of (sseClients (snd (delete_url g js))) g = None
       \<and> data_events (run_json f parseInt dec jevs (snd (delete_url g js))) c = data_events js c
       \<and> live (snd (delete_url g js)) = live js"
proof -
  let ?s' = "snd (delete_url g s)" and ?js' = "snd (delete_url g js)"
  have none: "\<forall>g'. subscriptions ?s' g' c = 0"
    using assms(2) by (simp add: delete_url_existing [OF assms(1)] subscriptions_def delete_conv')
  have jnone: "\<forall>g'. subscriptions ?js' g' c = 0"
    using assms(5) by (simp add: delete_url_existing [OF assms(4)] subscriptions_def delete_conv')
  have "data_events (run f num dec evs ?s') c = data_events ?s' c"
    by (rule run_unregistered [OF none assms(3)])
  moreover have "data_events ?s' c = data_events s c"
    by (simp add: delete_url_existing [OF assms(1)] data_events_def)
  moreover have "data_events (run_json f parseInt dec jevs ?js') c = data_events ?js' c"
    by (rule run_json_unregistered [OF jnone assms(6)])
  moreover have "data_events ?js' c = data_events js c"
    by (simp add: delete_url_existing [OF assms(4)] data_events_def)
  moreover have "g \<notin> fst ` set (get_urls ?s')"
    using delete_notin_dom [of g "files s"]
    by (force simp: delete_url_existing [OF assms(1)] get_urls_def)
  moreover have "g \<notin> fst ` set (get_urls_json ?js')"
    using delete_notin_dom [of g "files js"]
    by (force simp: delete_url_existing [OF assms(4)] get_urls_json_def)
  ultimately show ?thesis
    by (simp add: delete_url_existing [OF assms(1)] delete_url_existing [OF assms(4)] delete_conv')
qed

theorem delete_url_drops_subscribers_witness:
  "map_of (files sql_subscribed) ''b1'' = Some db_fresh
   \<and> sseClients sql_subscribed = [(''b1'', [7])]
   \<and> list_all (not_registering 7) traffic
   \<and> map_of (files json_subscribed) ''b1'' = Some \<lparr>name = NameFalse, requests = Some []\<rparr>
   \<and> sseClients json_subscribed = [(''b1'', [7])]
   \<and> list_all (not_registering_json 7) traffic_json
   \<and> fst (delete_url ''b1'' sql_subscribed) = SendStatus 200
   \<and> ''b1'' \<notin> fst ` set (get_urls (snd (delete_url ''b1'' sql_subscribed)))
   \<and> map_of (sseClients (snd (delete_url ''b1'' sql_subscribed))) ''b1'' = None
   \<and> data_events (run json_stringify sqlite_numeric js_decodeURIComponent traffic (snd (delete_url ''b1'' sql_subscribed))) 7
       = data_events sql_subscribed 7
   \<and> live (snd (delete_url ''b1'' sql_subscribed)) = live sql_subscribed
   \<and> intervals (snd (delete_url ''b1'' sql_subscribed)) = intervals sql_subscribed
   \<and> fst (delete_url ''b1'' json_subscribed) = SendStatus 200
   \<and> ''b1'' \<notin> fst ` set (get_urls_json (snd (delete_url ''b1'' json_subscribed)))
   \<and> map_of (sseClients (snd (delete_url ''b1'' json_subscribed))) ''b1'' = None
   \<and> data_events (run_json json_stringify js_parseInt js_decodeURIComponent traffic_json (snd (delete_url ''b1'' json_subscribed))) 7
       = data_events json_subscribed 7
   \<and> live (snd (delete_url ''b1'' json_subscribed)) = live json_subscribed"
proof -
  have h1: "map_of (files sql_subscribed) ''b1'' = Some db_fresh" by code_simp
  have reg: "sseClients sql_subscribed = [(''b1'', [7])]" by code_simp
  have h2: "\<forall>g'. g' \<noteq> ''b1'' \<longrightarrow> subscriptions sql_subscribed g' 7 = 0"
    by (simp add: subscriptions_def reg)
  have h3: "list_all (not_registering 7) traffic" by (simp add: traffic_def)
  have h4: "map_of (files json_subscribed) ''b1'' = Some \<lparr>name = NameFalse, requests = Some []\<rparr>"
    by code_simp
  have jreg: "sseClients json_subscribed = [(''b1'', [7])]" by code_simp
  have h5: "\<forall>g'. g' \<noteq> ''b1'' \<longrightarrow> subscriptions json_subscribed g' 7 = 0"
    by (simp add: subscriptions_def jreg)
  have h6: "list_all (not_registering_json 7) traffic_json" by (simp add: traffic_json_def)
  show ?thesis
    using delete_url_drops_subscribers
        [where f = json_stringify and num = sqlite_numeric and dec = js_decodeURIComponent
           and parseInt = js_parseInt, OF h1 h2 h3 h4 h5 h6]
      h1 reg h3 h4 jreg h6
    by simp
qed

text \<open>After the bin is deleted, the connection of its subscriber is still open and its
  keep-alive timer still armed: the next tick writes to it.\<close>

theorem delete_url_open_connection_counterexample:
  "subscriptions sql_subscribed ''b1'' 7 = 1
   \<and> fst (delete_url ''b1'' sql_subscribed) = SendStatus 200
   \<and> 7 \<in> set (live (snd (delete_url ''b1'' sql_subscribed)))
   \<and> 7 \<in> set (intervals (snd (delete_url ''b1'' sql_subscribed)))
   \<and> streams (keepAlive 7 (snd (delete_url ''b1'' sql_subscribed))) 7 = [keep_alive_chunk]
   \<and> subscriptions json_subscribed ''b1'' 7 = 1
   \<and> fst (delete_url ''b1'' json_subscribed) = SendStatus 200
   \<and> 7 \<in> set (live (snd (delete_url ''b1'' json_subscribed)))"
  by code_simp

section \<open>Renaming a bin\<close>

text \<open>
  C7 (as amended). Renaming a bin that exists is answered with 200 by both servers, and
  the stored name is the new one (on the SQLite server every row of the metadata table
  is set, so a later fetch returns the new name when the table has a row). When no bin
  with that id exists, the SQLite server answers 404 and the JSON server answers 500;
  neither changes its state.
\<close>

theorem rename_url_outcomes:
  "(map_of (files s) g = None \<longrightarrow> rename_url g n s = (SendStatus 404, s))
   \<and> (map_of (files s) g = Some d \<longrightarrow>
        fst (rename_url g n s) = SendStatus 200
        \<and> map_of (files (snd (rename_url g n s))) g = Some (d\<lparr>metadata := map (\<lambda>_. n) (metadata d)\<rparr>)
        \<and> (metadata d \<noteq> [] \<longrightarrow>
             logs_get g (snd (rename_url g n s)) = Json (n, order_by_logNumber_desc (requests_tbl d))))
   \<and> (map_of (files js) g = None \<longrightarrow>
        rename_url_json g (Some n) js = (StatusSend 500 ''Error renaming URL'', js))
   \<and> (map_of (files js) g = Some doc \<longrightarrow>
        fst (rename_url_json g (Some n) js) = SendStatus 200
        \<and> logs_get_json g (snd (rename_url_json g (Some n) js)) = Json (doc\<lparr>name := NameString n\<rparr>))"
  by (cases "metadata d")
     (simp_all add: rename_url_def rename_url_json_def logs_get_def logs_get_json_def update_conv' first_name_def)

theorem rename_url_outcomes_witness:
  "map_of (files sql_two) ''b1'' = Some db_two \<and> metadata db_two \<noteq> []
   \<and> map_of (files json_two) ''b1'' = Some doc_two
   \<and> map_of (files sql_two) ''zz'' = None \<and> map_of (files json_two) ''zz'' = None
   \<and> fst (rename_url ''b1'' ''new'' sql_two) = SendStatus 200
   \<and> logs_get ''b1'' (snd (rename_url ''b1'' ''new'' sql_two))
       = Json (''new'', order_by_logNumber_desc (requests_tbl db_two))
   \<and> fst (rename_url_json ''b1'' (Some ''new'') json_two) = SendStatus 200
   \<and> logs_get_json ''b1'' (snd (rename_url_json ''b1'' (Some ''new'') json_two))
       = Json (doc_two\<lparr>name := NameString ''new''\<rparr>)
   \<and> rename_url ''zz'' ''new'' sql_two = (SendStatus 404, sql_two)
   \<and> rename_url_json ''zz'' (Some ''new'') json_two = (StatusSend 500 ''Error renaming URL'', json_two)"
  using rename_url_outcomes [of sql_two "''b1''" "''new''" db_two json_two doc_two]
        rename_url_outcomes [of sql_two "''zz''" "''new''" db_two json_two doc_two]
  by (simp add: sql_two_files json_two_files db_two_def)

text \<open>On the JSON server, renaming a bin that does not exist is answered with 500.\<close>

theorem rename_url_json_missing_counterexample:
  "map_of (files (init_server :: bin_doc server)) ''b1'' = None
   \<and> status_of (fst (rename_url_json ''b1'' (Some ''new'') init_server)) = 500
   \<and> status_of (fst (rename_url_json ''b1'' (Some ''new'') init_server)) \<noteq> 404"
  by (simp add: rename_url_json_def init_server_def)

section \<open>Creating a bin and fetching its log\<close>

text \<open>
  C8 (as amended). On the SQLite server, creating a bin under a guid that has no file and
  then fetching its log yields an empty entry list and the initial name, which is the
  name supplied at creation, or ''Untitled'' when none was supplied. On the JSON server
  the fetch after a creation yields an empty entry list and the name \<^verbatim>\<open>false\<close>, whether
  or not a name was supplied: that server does not read the supplied name.
\<close>

theorem create_then_fetch:
  assumes "map_of (files s) g = None"
  shows "fst (create_url g name_in s) = Json (g, case name_in of None \<Rightarrow> ''Untitled'' | Some n \<Rightarrow> n)
       \<and> logs_get g (snd (create_url g name_in s))
           = Json (case name_in of None \<Rightarrow> ''Untitled'' | Some n \<Rightarrow> n, [])
       \<and> fst (create_url_json g name_in js) = Json (g, NameFalse)
       \<and> logs_get_json g (snd (create_url_json g name_in js)) = Json \<lparr>name = NameFalse, requests = Some []\<rparr>"
  using assms
  by (simp add: create_url_def create_url_json_def initDb_def logs_get_def logs_get_json_def update_conv'
      first_name_def empty_db_def order_by_logNumber_desc_def Let_def)

theorem create_then_fetch_witness:
  "map_of (files sql_two) ''b2'' = None
   \<and> logs_get ''b2'' (snd (create_url ''b2'' (Some ''second'') sql_two)) = Json (''second'', [])
   \<and> logs_get ''b2'' (snd (create_url ''b2'' None sql_two)) = Json (''Untitled'', [])
   \<and> logs_get_json ''b2'' (snd (create_url_json ''b2'' None json_two))
       = Json \<lparr>name = NameFalse, requests = Some []\<rparr>"
  using create_then_fetch [of sql_two "''b2''" "Some ''second''" json_two]
        create_then_fetch [of sql_two "''b2''" None json_two]
  by (simp add: sql_two_files)

text \<open>On the JSON server a bin created with the name ''demo'' has the name \<^verbatim>\<open>false\<close>.\<close>

theorem create_url_json_name_counterexample:
  "logs_get_json ''b1'' (snd (create_url_json ''b1'' (Some ''demo'') init_server))
     = Json \<lparr>name = NameFalse, requests = Some []\<rparr>
   \<and> NameFalse \<noteq> NameString ''demo''"
  by (simp add: create_url_json_def logs_get_json_def init_server_def)

section \<open>Deleting by a number that matches no entry\<close>

text \<open>
  C9 (as amended). For an existing bin, deleting by a \<^verbatim>\<open>logNumber\<close> parameter \<open>seg\<close> (the
  path segment as the handler receives it) that the server reads as a number equal to
  the logNumber of no entry of the bin, or as no number at all, is answered with 200
  and leaves the server state, the bin's log included, exactly as it was. The SQLite
  server reads the parameter as SQLite reads a text that it compares with an integer
  (\<open>numeric\<close>), the JSON server with \<^verbatim>\<open>parseInt\<close>. (For the JSON server the bin's
  document has a \<^verbatim>\<open>requests\<close> array.)
\<close>

theorem delete_log_no_match:
  assumes "map_of (files s) g = Some d"
      and "\<forall>row\<in>set (requests_tbl d). numeric seg \<noteq> Some (logNumber row)"
      and "map_of (files js) g = Some doc"
      and "requests doc = Some rs"
      and "\<forall>log\<in>set rs. parseInt seg \<noteq> Some (logNumber log)"
  shows "delete_log numeric g seg s = (SendStatus 200, s)
       \<and> delete_log_json parseInt g seg js = (SendStatus 200, js)"
proof -
  have "filter (\<lambda>row. Some (logNumber row) \<noteq> numeric seg) (requests_tbl d) = requests_tbl d"
    using assms(2) by (auto simp: filter_id_conv)
  then have d: "delete_where_logNumber (numeric seg) d = d"
    by (simp add: delete_where_logNumber_def)
  have "filter (\<lambda>log. Some (logNumber log) \<noteq> parseInt seg) rs = rs"
    using assms(5) by (auto simp: filter_id_conv)
  then have doc: "doc\<lparr>requests := Some (filter (\<lambda>log. Some (logNumber log) \<noteq> parseInt seg) rs)\<rparr> = doc"
    using assms(4) by simp
  show ?thesis
    using assms(1,3,4) d doc by (simp add: delete_log_def delete_log_json_def update_triv)
qed

theorem delete_log_no_match_witness:
  "map_of (files sql_two) ''b1'' = Some db_two
   \<and> requests_tbl db_two = [entry_a, entry_b]
   \<and> logNumber entry_a = 1 \<and> logNumber entry_b = 2
   \<and> sqlite_numeric ''7'' = Some 7 \<and> js_parseInt ''7'' = Some 7
   \<and> sqlite_numeric ''abc'' = None \<and> js_parseInt ''abc'' = None
   \<and> sqlite_numeric ''2abc'' = None
   \<and> map_of (files json_two) ''b1'' = Some doc_two
   \<and> requests doc_two = Some [entry_a, entry_b]
   \<and> delete_log sqlite_numeric ''b1'' ''7'' sql_two = (SendStatus 200, sql_two)
   \<and> delete_log_json js_parseInt ''b1'' ''7'' json_two = (SendStatus 200, json_two)
   \<and> delete_log sqlite_numeric ''b1'' ''abc'' sql_two = (SendStatus 200, sql_two)
   \<and> delete_log_json js_parseInt ''b1'' ''abc'' json_two = (SendStatus 200, json_two)"
proof -
  have h1: "map_of (files sql_two) ''b1'' = Some db_two" by (simp add: sql_two_files)
  have rows: "requests_tbl db_two = [entry_a, entry_b]" by (simp add: db_two_def)
  have n7: "sqlite_numeric ''7'' = Some 7" "js_parseInt ''7'' = Some 7" by code_simp+
  have nabc: "sqlite_numeric ''abc'' = None" "js_parseInt ''abc'' = None" by code_simp+
  have n2abc: "sqlite_numeric ''2abc'' = None" by code_simp
  have h2: "\<forall>row\<in>set (requests_tbl db_two). sqlite_numeric ''7'' \<noteq> Some (logNumber row)"
    by (simp add: rows n7 entry_numbers)
  have h2': "\<forall>row\<in>set (requests_tbl db_two). sqlite_numeric ''abc'' \<noteq> Some (logNumber row)"
    by (simp add: nabc)
  have h3: "map_of (files json_two) ''b1'' = Some doc_two" by (simp add: json_two_files)
  have h4: "requests doc_two = Some [entry_a, entry_b]" by (simp add: doc_two_def)
  have h5: "\<forall>log\<in>set [entry_a, entry_b]. js_parseInt ''7'' \<noteq> Some (logNumber log)"
    by (simp add: n7 entry_numbers)
  have h5': "\<forall>log\<in>set [entry_a, entry_b]. js_parseInt ''abc'' \<noteq> Some (logNumber log)"
    by (simp add: nabc)
  show ?thesis
    using delete_log_no_match
            [where numeric = sqlite_numeric and parseInt = js_parseInt and seg = "''7''",
              OF h1 h2 h3 h4 h5]
          delete_log_no_match
            [where numeric = sqlite_numeric and parseInt = js_parseInt and seg = "''abc''",
              OF h1 h2' h3 h4 h5']
          h1 rows n7 nabc n2abc h3 h4
    by (simp add: entry_numbers)
qed

text \<open>
  A path segment that is no number but begins with a numeral is read by \<^verbatim>\<open>parseInt\<close> as
  that numeral: on the JSON server, in a bin with the entries 1 and 2, deleting by the
  segment \<^verbatim>\<open>2abc\<close> removes entry 2. The SQLite server leaves the bin as it is on
  that segment, and reads the segment \<^verbatim>\<open>2.0\<close> as the number 2.
\<close>

theorem delete_log_json_leading_numeral_counterexample:
  "log_numbers_json json_two ''b1'' = [1, 2]
   \<and> js_parseInt ''2abc'' = Some 2
   \<and> fst (delete_log_json js_parseInt ''b1'' ''2abc'' json_two) = SendStatus 200
   \<and> log_numbers_json (snd (delete_log_json js_parseInt ''b1'' ''2abc'' json_two)) ''b1'' = [1]
   \<and> log_numbers sql_two ''b1'' = [1, 2]
   \<and> sqlite_numeric ''2abc'' = None
   \<and> log_numbers (snd (delete_log sqlite_numeric ''b1'' ''2abc'' sql_two)) ''b1'' = [1, 2]
   \<and> sqlite_numeric ''2.0'' = Some 2
   \<and> fst (delete_log sqlite_numeric ''b1'' ''2.0'' sql_two) = SendStatus 200
   \<and> log_numbers (snd (delete_log sqlite_numeric ''b1'' ''2.0'' sql_two)) ''b1'' = [1]"
  by code_simp

section \<open>The stored URL\<close>

text \<open>
  C10. A request captured in an existing bin is stored as one new entry whose url is the
  original URL of the request, whole. When the route has addressed the request to the
  bin, that URL begins with the slash and the bin segment as the request wrote it (the
  segment that decodes to the bin id), followed by whatever sub-path and query string
  the request had.
\<close>

theorem capture_stores_originalUrl:
  assumes "map_of (files s) g = Some d"
      and "map_of (files js) g = Some doc"
  shows "(\<exists>d' e. map_of (files (snd (capture stringify g req now s))) g = Some d'
             \<and> requests_tbl d' = requests_tbl d @ [e] \<and> url e = originalUrl req)
       \<and> (\<exists>doc' e. map_of (files (snd (capture_json stringify g req now js))) g = Some doc'
             \<and> requests doc' = Some ((case requests doc of None \<Rightarrow> [] | Some rs \<Rightarrow> rs) @ [e])
             \<and> url e = originalUrl req)
       \<and> (capture_route decode (originalUrl req) = Some g \<longrightarrow>
            (\<exists>seg. seg \<noteq> [] \<and> decode seg = Some g
               \<and> originalUrl req = CHR ''/'' # seg @ drop (Suc (length seg)) (originalUrl req)))"
proof -
  have sql: "\<exists>d' e. map_of (files (snd (capture stringify g req now s))) g = Some d'
             \<and> requests_tbl d' = requests_tbl d @ [e] \<and> url e = originalUrl req"
    using assms(1)
    by (simp add: capture_def logRequest_def initDb_def insert_request_def Let_def
        pushUpdateToClients_def update_conv' with_logNumber_def requestData_of_def
        split: option.splits)
  have json: "\<exists>doc' e. map_of (files (snd (capture_json stringify g req now js))) g = Some doc'
             \<and> requests doc' = Some ((case requests doc of None \<Rightarrow> [] | Some rs \<Rightarrow> rs) @ [e])
             \<and> url e = originalUrl req"
    using assms(2)
    by (simp add: capture_json_def logRequest_json_def Let_def pushUpdateToClients_def
        update_conv' with_logNumber_def requestData_of_def split: option.splits)
  have route: "capture_route decode (originalUrl req) = Some g \<longrightarrow>
            (\<exists>seg. seg \<noteq> [] \<and> decode seg = Some g
               \<and> originalUrl req = CHR ''/'' # seg @ drop (Suc (length seg)) (originalUrl req))"
    using capture_route_segment [of decode "originalUrl req" g] by blast
  show ?thesis using sql json route by blast
qed

theorem capture_stores_originalUrl_witness:
  "map_of (files sql_two) ''b1'' = Some db_two
   \<and> map_of (files json_two) ''b1'' = Some doc_two
   \<and> capture_route js_decodeURIComponent ''/%621/b?x=1'' = Some ''b1''
   \<and> first_segment ''/%621/b?x=1'' = Some ''%621''
   \<and> js_decodeURIComponent ''%621'' = Some ''b1''
   \<and> (\<exists>d' e. map_of (files (snd (capture json_stringify ''b1'' (get_request ''/%621/b?x=1'') ''t3'' sql_two)))
                ''b1'' = Some d'
         \<and> requests_tbl d' = requests_tbl db_two @ [e] \<and> url e = ''/%621/b?x=1'')
   \<and> (\<exists>doc' e. map_of (files (snd (capture_json json_stringify ''b1'' (get_request ''/%621/b?x=1'') ''t3''
                                       json_two))) ''b1'' = Some doc'
         \<and> requests doc' = Some ([entry_a, entry_b] @ [e]) \<and> url e = ''/%621/b?x=1'')
   \<and> (\<exists>seg. seg \<noteq> [] \<and> js_decodeURIComponent seg = Some ''b1''
         \<and> ''/%621/b?x=1'' = CHR ''/'' # seg @ drop (Suc (length seg)) ''/%621/b?x=1'')"
proof -
  have h1: "map_of (files sql_two) ''b1'' = Some db_two" by (simp add: sql_two_files)
  have h2: "map_of (files json_two) ''b1'' = Some doc_two" by (simp add: json_two_files)
  have r: "capture_route js_decodeURIComponent ''/%621/b?x=1'' = Some ''b1''" by code_simp
  have fs: "first_segment ''/%621/b?x=1'' = Some ''%621''" by code_simp
  have dc: "js_decodeURIComponent ''%621'' = Some ''b1''" by code_simp
  have u: "originalUrl (get_request ''/%621/b?x=1'') = ''/%621/b?x=1''" by (simp add: get_request_def)
  have rq: "requests doc_two = Some [entry_a, entry_b]" by (simp add: doc_two_def)
  from capture_stores_originalUrl
         [OF h1 h2, where stringify = json_stringify and req = "get_request ''/%621/b?x=1''"
            and now = "''t3''" and decode = js_decodeURIComponent]
  have "(\<exists>d' e. map_of (files (snd (capture json_stringify ''b1'' (get_request ''/%621/b?x=1'') ''t3'' sql_two)))
                ''b1'' = Some d'
         \<and> requests_tbl d' = requests_tbl db_two @ [e] \<and> url e = ''/%621/b?x=1'')
   \<and> (\<exists>doc' e. map_of (files (snd (capture_json json_stringify ''b1'' (get_request ''/%621/b?x=1'') ''t3''
                                       json_two))) ''b1'' = Some doc'
         \<and> requests doc' = Some ([entry_a, entry_b] @ [e]) \<and> url e = ''/%621/b?x=1'')
   \<and> (capture_route js_decodeURIComponent ''/%621/b?x=1'' = Some ''b1'' \<longrightarrow>
        (\<exists>seg. seg \<noteq> [] \<and> js_decodeURIComponent seg = Some ''b1''
           \<and> ''/%621/b?x=1'' = CHR ''/'' # seg @ drop (Suc (length seg)) ''/%621/b?x=1''))"
    unfolding u rq by simp
  then show ?thesis using h1 h2 r fs dc by blast
qed

end
